theory Spec2Isabelle
  imports Main
begin

section \<open>JavaScript values\<close>

text \<open>
  The values \<open>chatmodel.ts\<close> handles at type \<open>any\<close>: what a JSON response body can
  hold, and \<open>undefined\<close>. An object is its list of own properties in insertion order;
  where a name is repeated the last entry is the property's value, as in an object
  literal and in \<open>JSON.parse\<close>. Numbers are the integer-valued ones: no claim depends on
  a fractional value, and floating point is left out; how a number prints is left to
  the platform.
\<close>

datatype jsval =
    JUndefined
  | JNull
  | JBool bool
  | JNum int
  | JStr string
  | JArr "jsval list"
  | JObj "(string \<times> jsval) list"

type_synonym props = "(string \<times> jsval) list"

text \<open>A thrown value: an \<open>Error\<close> object, by its constructor and its \<open>message\<close>.\<close>

datatype exn_kind = Error | TypeError | SyntaxError | TransportError

datatype exn = Exn exn_kind string

fun message :: "exn \<Rightarrow> string" where
  "message (Exn k m) = m"

text \<open>\<open>typeof v\<close>.\<close>

fun typeof :: "jsval \<Rightarrow> string" where
  "typeof JUndefined = ''undefined''"
| "typeof JNull = ''object''"
| "typeof (JBool b) = ''boolean''"
| "typeof (JNum n) = ''number''"
| "typeof (JStr s) = ''string''"
| "typeof (JArr xs) = ''object''"
| "typeof (JObj ps) = ''object''"

text \<open>\<open>Array.isArray(v)\<close>.\<close>

fun isArray :: "jsval \<Rightarrow> bool" where
  "isArray (JArr xs) = True"
| "isArray v = False"

text \<open>Truthiness, as \<open>if (v)\<close>, \<open>!v\<close> and \<open>v && ...\<close> test it.\<close>

fun truthy :: "jsval \<Rightarrow> bool" where
  "truthy JUndefined = False"
| "truthy JNull = False"
| "truthy (JBool b) = b"
| "truthy (JNum n) = (n \<noteq> 0)"
| "truthy (JStr s) = (s \<noteq> [])"
| "truthy (JArr xs) = True"
| "truthy (JObj ps) = True"

text \<open>\<open>v == null\<close>: the values at which \<open>?.\<close> and \<open>??\<close> give way.\<close>

fun nullish :: "jsval \<Rightarrow> bool" where
  "nullish JUndefined = True"
| "nullish JNull = True"
| "nullish v = False"

text \<open>The value of own property \<open>k\<close> of an object, \<open>undefined\<close> when it has none.\<close>

definition own_prop :: "props \<Rightarrow> string \<Rightarrow> jsval" where
  "own_prop ps k = (case map_of (rev ps) k of Some v \<Rightarrow> v | None \<Rightarrow> JUndefined)"

text \<open>
  The member access \<open>v.k\<close>. It throws a \<open>TypeError\<close> on \<open>null\<close> and \<open>undefined\<close>. The
  program reads only the names \<open>message\<close>, \<open>delta\<close>, \<open>content\<close>, \<open>text\<close>, \<open>error\<close> and
  \<open>choices\<close>; no built-in prototype defines any of them, so on a primitive, on an
  array and on an object without that own property the access gives \<open>undefined\<close>.
\<close>

fun get_prop :: "jsval \<Rightarrow> string \<Rightarrow> exn + jsval" where
  "get_prop JUndefined k =
     Inl (Exn TypeError (''Cannot read properties of undefined (reading '' @ k @ '')''))"
| "get_prop JNull k =
     Inl (Exn TypeError (''Cannot read properties of null (reading '' @ k @ '')''))"
| "get_prop (JObj ps) k = Inr (own_prop ps k)"
| "get_prop v k = Inr JUndefined"

text \<open>The optional access \<open>v?.k\<close>: \<open>undefined\<close> on \<open>null\<close> and \<open>undefined\<close>, else \<open>v.k\<close>.\<close>

definition opt_get :: "jsval \<Rightarrow> string \<Rightarrow> exn + jsval" where
  "opt_get v k = (if nullish v then Inr JUndefined else get_prop v k)"

text \<open>Sequencing of computations that may throw.\<close>

fun bindE :: "exn + 'a \<Rightarrow> ('a \<Rightarrow> exn + 'b) \<Rightarrow> exn + 'b" where
  "bindE (Inl e) f = Inl e"
| "bindE (Inr x) f = f x"

text \<open>\<open>a ?? b\<close>: \<open>b\<close> is evaluated only when \<open>a\<close> is \<open>null\<close> or \<open>undefined\<close>.\<close>

definition coalesce :: "exn + jsval \<Rightarrow> (exn + jsval) \<Rightarrow> exn + jsval" where
  "coalesce a b = bindE a (\<lambda>x. if nullish x then b else Inr x)"

text \<open>The string a value is, when \<open>typeof\<close> gives \<open>"string"\<close> for it.\<close>

fun str_of :: "jsval \<Rightarrow> string option" where
  "str_of (JStr s) = Some s"
| "str_of v = None"

subsection \<open>The built-ins of the platform\<close>

text \<open>
  The built-ins \<open>JSON.parse\<close> and \<open>JSON.stringify\<close> and the conversion of a number to
  a string (\<open>Number::toString\<close>, which switches to exponent notation for large
  values) are parameters. \<open>JSON.parse\<close> throws a \<open>SyntaxError\<close> on malformed text;
  \<open>JSON.stringify\<close> gives \<open>undefined\<close> (\<open>None\<close>) for \<open>undefined\<close>.
\<close>

record platform =
  JSON_parse :: "string \<Rightarrow> exn + jsval"
  JSON_stringify :: "jsval \<Rightarrow> string option"
  Number_toString :: "int \<Rightarrow> string"

subsection \<open>Conversion to a string\<close>

text \<open>
  The decimal digits of a count and of an array index, which are small integers and
  print as their digits.
\<close>

definition digit_char :: "nat \<Rightarrow> char" where
  "digit_char d = ''0123456789'' ! d"

fun show_nat :: "nat \<Rightarrow> string" where
  "show_nat n = (if n < 10 then [digit_char n] else show_nat (n div 10) @ [digit_char (n mod 10)])"

declare show_nat.simps [simp del]

definition show_int :: "int \<Rightarrow> string" where
  "show_int i = (if i < 0 then ''-'' @ show_nat (nat (- i)) else show_nat (nat i))"

text \<open>
  \<open>ToString(v)\<close>, which \<open>new Error(v)\<close> and \<open>Array.prototype.join\<close> apply, and
  \<open>xs.join(sep)\<close>, where \<open>null\<close> and \<open>undefined\<close> elements give the empty string. An
  object goes through \<open>Object.prototype.toString\<close>; when it has an own property
  \<open>toString\<close> (a data value, so not callable) the conversion finds no method that
  returns a primitive and throws a \<open>TypeError\<close>. A number is converted by the
  platform.
\<close>

fun ToString :: "platform \<Rightarrow> jsval \<Rightarrow> exn + string"
  and join :: "platform \<Rightarrow> jsval list \<Rightarrow> string \<Rightarrow> exn + string" where
  "ToString P JUndefined = Inr ''undefined''"
| "ToString P JNull = Inr ''null''"
| "ToString P (JBool b) = Inr (if b then ''true'' else ''false'')"
| "ToString P (JNum n) = Inr (Number_toString P n)"
| "ToString P (JStr s) = Inr s"
| "ToString P (JArr xs) = join P xs '',''"
| "ToString P (JObj ps) =
     (if ''toString'' \<in> fst ` set ps
      then Inl (Exn TypeError ''Cannot convert object to primitive value'')
      else Inr ''[object Object]'')"
| "join P [] sep = Inr ''''"
| "join P (x # xs) sep =
     (case (if nullish x then Inr '''' else ToString P x) of
        Inl e \<Rightarrow> Inl e
      | Inr s \<Rightarrow>
          (if xs = [] then Inr s
           else (case join P xs sep of Inl e \<Rightarrow> Inl e | Inr r \<Rightarrow> Inr (s @ sep @ r))))"

section \<open>Choice text extraction\<close>

text \<open>
  Lines 36 to 40 of \<open>extractChoiceText\<close>:
  \<open>choice?.message?.content ?? choice?.delta?.content ?? choice?.text ?? choice?.content\<close>.
\<close>

definition selected_content :: "jsval \<Rightarrow> exn + jsval" where
  "selected_content choice =
     coalesce
       (coalesce
          (coalesce
             (bindE (opt_get choice ''message'') (\<lambda>m. opt_get m ''content''))
             (bindE (opt_get choice ''delta'') (\<lambda>d. opt_get d ''content'')))
          (opt_get choice ''text''))
       (opt_get choice ''content'')"

text \<open>
  The body of the loop of lines 49 to 57: \<open>parts\<close> after one element \<open>item\<close> of the
  array. Each test \<open>typeof x === "string"\<close> is \<open>typeof x = ''string''\<close>; \<open>item?.text\<close> is
  the optional access, \<open>item.text\<close> in the \<open>push\<close> the plain one.
\<close>

definition push_part :: "jsval \<Rightarrow> jsval list \<Rightarrow> exn + jsval list" where
  "push_part item parts =
     (if typeof item = ''string'' then Inr (parts @ [item])
      else bindE (opt_get item ''text'') (\<lambda>t.
        if typeof t = ''string''
        then bindE (get_prop item ''text'') (\<lambda>t'. Inr (parts @ [t']))
        else bindE (opt_get item ''content'') (\<lambda>c.
          if typeof c = ''string''
          then bindE (get_prop item ''content'') (\<lambda>c'. Inr (parts @ [c']))
          else Inr parts)))"

text \<open>The loop \<open>for (const item of content)\<close>.\<close>

fun collect_parts :: "jsval list \<Rightarrow> jsval list \<Rightarrow> exn + jsval list" where
  "collect_parts [] parts = Inr parts"
| "collect_parts (item # items) parts =
     (case push_part item parts of
        Inl e \<Rightarrow> Inl e
      | Inr parts' \<Rightarrow> collect_parts items parts')"

text \<open>The elements of an array, which \<open>for ... of\<close> runs over.\<close>

fun elements :: "jsval \<Rightarrow> jsval list" where
  "elements (JArr xs) = xs"
| "elements v = []"

text \<open>
  \<open>extractChoiceText\<close>, lines 35 to 69. The result is a string or \<open>undefined\<close>, as a
  \<open>jsval\<close>; \<open>Inl\<close> is a thrown exception. The platform is the one that
  \<open>parts.join("")\<close> runs on.
\<close>

definition extractChoiceText :: "platform \<Rightarrow> jsval \<Rightarrow> exn + jsval" where
  "extractChoiceText P choice =
     bindE (selected_content choice) (\<lambda>content.
       if typeof content = ''string'' then Inr content
       else if isArray content then
         bindE (collect_parts (elements content) []) (\<lambda>parts.
           bindE (join P parts '''') (\<lambda>joined.
             Inr (if length joined > 0 then JStr joined else JUndefined)))
       else if truthy content \<and> typeof content = ''object'' then
         bindE (get_prop content ''text'') (\<lambda>t.
           if typeof t = ''string'' then get_prop content ''text'' else Inr JUndefined)
       else Inr JUndefined)"

section \<open>Objects and option resolution\<close>

text \<open>
  The assignment \<open>o[k] = v\<close>: an own property keeps its place, a new one goes last.
  (JavaScript enumerates integer-like names first; the order of the properties is not
  observed by any operation below.)
\<close>

definition obj_set :: "props \<Rightarrow> string \<Rightarrow> jsval \<Rightarrow> props" where
  "obj_set ps k v =
     (if k \<in> fst ` set ps
      then map (\<lambda>p. if fst p = k then (k, v) else p) ps
      else ps @ [(k, v)])"

text \<open>
  The spread \<open>{...target, ...src}\<close> continued: each own property of \<open>src\<close>, in order,
  is assigned to the object built so far.
\<close>

definition spread :: "props \<Rightarrow> props \<Rightarrow> props" where
  "spread target src = fold (\<lambda>(k, v) acc. obj_set acc k v) src target"

text \<open>Lines 12 to 16.\<close>

definition defaultPostOptions :: props where
  "defaultPostOptions =
     [(''max_tokens'', JNum 1000), (''temperature'', JNum 0), (''top_p'', JNum 1)]"

text \<open>
  Lines 103 to 109 of \<open>query\<close>: the object
  \<open>{...defaultPostOptions, ...this.instanceOptions, ...requestPostOptions}\<close>.
\<close>

definition merged_options :: "props \<Rightarrow> props \<Rightarrow> props" where
  "merged_options instanceOptions requestPostOptions =
     spread (spread (spread [] defaultPostOptions) instanceOptions) requestPostOptions"

text \<open>
  The own enumerable properties a spread copies from a value: those of an object, the
  indices of an array and of a string, none of any other value.
\<close>

fun spread_props :: "jsval \<Rightarrow> props" where
  "spread_props (JObj ps) = ps"
| "spread_props (JArr xs) = map (\<lambda>i. (show_nat i, xs ! i)) [0..<length xs]"
| "spread_props (JStr s) = map (\<lambda>i. (show_nat i, JStr [s ! i])) [0..<length s]"
| "spread_props v = []"

section \<open>The client and its environment\<close>

text \<open>The fields of \<open>ChatModel\<close>; the rate limiter is below.\<close>

record client =
  model :: string
  nrAttempts :: nat
  instanceOptions :: props
  apiEndpoint :: string
  authHeaders :: string

text \<open>What \<open>axios.post\<close> resolves to, by the fields \<open>query\<close> reads, and what it is given.\<close>

record http_response =
  status :: int
  statusText :: string
  data :: jsval

record request =
  url :: string
  body :: jsval
  headers :: jsval

text \<open>
  The world outside the client: the endpoint, which answers the \<open>i\<close>-th request posted
  to it with a response or a rejection; the admissions granted by the rate limiter and
  the requests posted, in the order they happened; the lines written by
  \<open>console.warn\<close>.
\<close>

datatype event = Admitted | Posted request

record world =
  server :: "nat \<Rightarrow> request \<Rightarrow> exn + http_response"
  events :: "event list"
  warnings :: "string list"

fun posts_of :: "event list \<Rightarrow> request list" where
  "posts_of [] = []"
| "posts_of (Admitted # es) = posts_of es"
| "posts_of (Posted r # es) = r # posts_of es"



definition console_warn :: "string \<Rightarrow> world \<Rightarrow> world" where
  "console_warn line w = w\<lparr>warnings := warnings w @ [line]\<rparr>"

text \<open>\<open>axios.post(url, body, {headers})\<close>.\<close>

definition axios_post ::
    "string \<Rightarrow> jsval \<Rightarrow> jsval \<Rightarrow> world \<Rightarrow> (exn + http_response) \<times> world" where
  "axios_post u b h w =
     (let r = \<lparr>url = u, body = b, headers = h\<rparr>
      in (server w (length (posts_of (events w))) r, w\<lparr>events := events w @ [Posted r]\<rparr>))"

text \<open>
  Modelled from the spec: \<open>IRateLimiter.next\<close> of \<open>promise-utils\<close>, which is not among
  the sources. "Operation \<open>admitAndRun(unitOfWork)\<close>": the unit of work is admitted,
  then run, and its result or failure is passed on unchanged. Pacing in time is left
  out; each admission is recorded.
\<close>

definition rateLimiter_next ::
    "(world \<Rightarrow> (exn + 'a) \<times> world) \<Rightarrow> world \<Rightarrow> (exn + 'a) \<times> world" where
  "rateLimiter_next work w = work (w\<lparr>events := events w @ [Admitted]\<rparr>)"

text \<open>
  Modelled from the spec: \<open>retry\<close> of \<open>promise-utils\<close>, which is not among the sources.
  It "re-invokes \<open>unitOfWork\<close> up to \<open>maxAttempts\<close> times on failure; re-raises the final
  failure once attempts are exhausted; must not alter success results". The spec
  requires a budget of at least 1; with a budget of 0 the unit of work is still
  invoked once.
\<close>

fun retry ::
    "(world \<Rightarrow> (exn + 'a) \<times> world) \<Rightarrow> nat \<Rightarrow> world \<Rightarrow> (exn + 'a) \<times> world" where
  "retry f 0 w = f w"
| "retry f (Suc 0) w = f w"
| "retry f (Suc (Suc n)) w =
     (case f w of
        (Inr v, w') \<Rightarrow> (Inr v, w')
      | (Inl e, w') \<Rightarrow> retry f (Suc n) w')"

section \<open>query\<close>

text \<open>\<open>completions.add(text)\<close> on a set of strings, kept in insertion order.\<close>

definition set_add :: "string list \<Rightarrow> string \<Rightarrow> string list" where
  "set_add xs x = (if x \<in> set xs then xs else xs @ [x])"

text \<open>The loop of lines 165 to 172, from the values of \<open>completions\<close> and \<open>skipped\<close>.\<close>

fun collect_texts ::
    "platform \<Rightarrow> jsval list \<Rightarrow> string list \<Rightarrow> nat \<Rightarrow> exn + string list \<times> nat" where
  "collect_texts P [] completions skipped = Inr (completions, skipped)"
| "collect_texts P (choice # choices) completions skipped =
     (case extractChoiceText P choice of
        Inl e \<Rightarrow> Inl e
      | Inr text \<Rightarrow>
          (case str_of text of
             None \<Rightarrow> collect_texts P choices completions (Suc skipped)
           | Some s \<Rightarrow> collect_texts P choices (set_add completions s) skipped))"

text \<open>
  Lines 175 to 177:
  \<open>json.choices.find((c) => typeof ChatModel.extractChoiceText(c) !== "string")\<close>.
\<close>

fun find_skipped :: "platform \<Rightarrow> jsval list \<Rightarrow> exn + jsval" where
  "find_skipped P [] = Inr JUndefined"
| "find_skipped P (c # cs) =
     (case extractChoiceText P c of
        Inl e \<Rightarrow> Inl e
      | Inr text \<Rightarrow> if typeof text \<noteq> ''string'' then Inr c else find_skipped P cs)"

text \<open>The warning of lines 179 to 181; an \<open>undefined\<close> snippet prints as \<open>undefined\<close>.\<close>

definition skipped_warning :: "nat \<Rightarrow> string option \<Rightarrow> string" where
  "skipped_warning skipped snippet =
     ''Warning: skipped '' @ show_nat skipped @ '' LLM choice(s) with no text content. Example: ''
       @ (case snippet of None \<Rightarrow> ''undefined'' | Some s \<Rightarrow> s)"

text \<open>Lines 163 to 183, on the elements of \<open>json.choices\<close>.\<close>

definition collect_completions ::
    "platform \<Rightarrow> jsval list \<Rightarrow> world \<Rightarrow> (exn + string list) \<times> world" where
  "collect_completions P choices w =
     (case collect_texts P choices [] 0 of
        Inl e \<Rightarrow> (Inl e, w)
      | Inr (completions, skipped) \<Rightarrow>
          if skipped > 0 then
            (case find_skipped P choices of
               Inl e \<Rightarrow> (Inl e, w)
             | Inr first \<Rightarrow>
                 (let snippet = map_option (take 500) (JSON_stringify P first)
                  in (Inr completions, console_warn (skipped_warning skipped snippet) w)))
          else (Inr completions, w))"

text \<open>\<open>new Error(v)\<close> for a value \<open>v\<close> other than \<open>undefined\<close>: the message is \<open>ToString(v)\<close>.\<close>

definition new_Error :: "platform \<Rightarrow> jsval \<Rightarrow> exn" where
  "new_Error P v = (case ToString P v of Inl e \<Rightarrow> e | Inr m \<Rightarrow> Exn Error m)"

text \<open>
  Lines 143 to 183: the checks on the response, then the choices. The template of
  line 145 converts the number \<open>res.status\<close> to a string.
\<close>

definition check_response ::
    "platform \<Rightarrow> http_response \<Rightarrow> world \<Rightarrow> (exn + string list) \<times> world" where
  "check_response P res w =
     (if status res \<noteq> 200 then
        (Inl (Exn Error (''Request failed with status '' @ Number_toString P (status res)
                          @ '' and message '' @ statusText res)), w)
      else if \<not> truthy (data res) then (Inl (Exn Error ''Response data is empty''), w)
      else
        (let json = data res in
         case get_prop json ''error'' of
           Inl e \<Rightarrow> (Inl e, w)
         | Inr err \<Rightarrow>
             if truthy err then (Inl (new_Error P err), w)
             else
               (case get_prop json ''choices'' of
                  Inl e \<Rightarrow> (Inl e, w)
                | Inr choices \<Rightarrow>
                    if \<not> isArray choices then
                      (Inl (Exn Error
                         (''Unexpected LLM response format: expected choices array, got ''
                            @ typeof choices)), w)
                    else collect_completions P (elements choices) w)))"

text \<open>Lines 113 to 126: the request body.\<close>

definition postOptions :: "client \<Rightarrow> string \<Rightarrow> props \<Rightarrow> jsval" where
  "postOptions c prompt options =
     JObj (spread
       [(''model'', JStr (model c)),
        (''messages'', JArr
           [JObj [(''role'', JStr ''system''),
                  (''content'', JStr ''You are a programming assistant.'')],
            JObj [(''role'', JStr ''user''), (''content'', JStr prompt)]])]
       options)"

text \<open>The headers of line 98 to 101, from the parsed \<open>authHeaders\<close>.\<close>

definition request_headers :: "jsval \<Rightarrow> jsval" where
  "request_headers auth =
     JObj (spread [(''Content-Type'', JStr ''application/json'')] (spread_props auth))"

text \<open>
  Lines 98 to 134 of \<open>query\<close>: headers, options, body, and the call under \<open>retry\<close> and
  the rate limiter. The marks and measures of \<open>performance\<close> are telemetry and are left
  out.
\<close>

definition send_request ::
    "platform \<Rightarrow> client \<Rightarrow> string \<Rightarrow> props \<Rightarrow> world \<Rightarrow> (exn + http_response) \<times> world" where
  "send_request P c prompt requestPostOptions w =
     (case JSON_parse P (authHeaders c) of
        Inl e \<Rightarrow> (Inl e, w)
      | Inr auth \<Rightarrow>
          (let hdrs = request_headers auth;
               options = merged_options (instanceOptions c) requestPostOptions
           in retry
                (rateLimiter_next
                   (axios_post (apiEndpoint c) (postOptions c prompt options) hdrs))
                (nrAttempts c) w))"

text \<open>\<open>query\<close>, lines 94 to 184.\<close>

definition query ::
    "platform \<Rightarrow> client \<Rightarrow> string \<Rightarrow> props \<Rightarrow> world \<Rightarrow> (exn + string list) \<times> world" where
  "query P c prompt requestPostOptions w =
     (case send_request P c prompt requestPostOptions w of
        (Inl e, w') \<Rightarrow> (Inl e, w')
      | (Inr res, w') \<Rightarrow> check_response P res w')"

section \<open>completions\<close>

text \<open>
  \<open>completions\<close>, lines 191 to 205. The values thrown inside the \<open>try\<close> are \<open>Error\<close>
  objects, so \<open>err.message\<close> is their message.
\<close>

definition completions ::
    "platform \<Rightarrow> client \<Rightarrow> string \<Rightarrow> int \<Rightarrow> world \<Rightarrow> (exn + string list) \<times> world" where
  "completions P c prompt temperature w =
     (case query P c prompt [(''temperature'', JNum temperature)] w of
        (Inr found, w') \<Rightarrow>
          (Inr (fold (\<lambda>completion result. set_add result completion) found []), w')
      | (Inl err, w') \<Rightarrow>
          (Inr [], console_warn (''Failed to get completions: '' @ message err) w'))"

section \<open>Vocabulary of the properties\<close>

text \<open>The field \<open>k\<close> of a value read without failure: \<open>undefined\<close> where there is none.\<close>

fun field :: "jsval \<Rightarrow> string \<Rightarrow> jsval" where
  "field (JObj ps) k = own_prop ps k"
| "field v k = JUndefined"

text \<open>
  The four places a choice may hold its text, in the order of priority:
  \<open>message.content\<close>, \<open>delta.content\<close>, \<open>text\<close>, \<open>content\<close>.
\<close>

definition candidates :: "jsval \<Rightarrow> jsval list" where
  "candidates choice =
     [field (field choice ''message'') ''content'',
      field (field choice ''delta'') ''content'',
      field choice ''text'',
      field choice ''content'']"

text \<open>
  The fragment recovered from one element of an array of parts: the element itself if
  it is a string, else its \<open>text\<close> field if a string, else its \<open>content\<close> field if a
  string.
\<close>

definition fragment :: "jsval \<Rightarrow> string option" where
  "fragment item =
     (case str_of item of
        Some s \<Rightarrow> Some s
      | None \<Rightarrow>
          (case str_of (field item ''text'') of
             Some t \<Rightarrow> Some t
           | None \<Rightarrow> str_of (field item ''content'')))"

definition fragments :: "jsval list \<Rightarrow> string list" where
  "fragments items = List.map_filter fragment items"

text \<open>The text a choice extracts to, \<open>None\<close> when it is absent.\<close>

definition extracted :: "platform \<Rightarrow> jsval \<Rightarrow> string option" where
  "extracted P choice =
     (case extractChoiceText P choice of Inl e \<Rightarrow> None | Inr v \<Rightarrow> str_of v)"

text \<open>The choices that extract to absent, and the snapshot of the first of them.\<close>

definition skipped_choices :: "platform \<Rightarrow> jsval list \<Rightarrow> jsval list" where
  "skipped_choices P choices = filter (\<lambda>c. extracted P c = None) choices"

definition snapshot :: "platform \<Rightarrow> jsval list \<Rightarrow> string option" where
  "snapshot P choices =
     (case skipped_choices P choices of
        [] \<Rightarrow> None
      | first # rest \<Rightarrow> map_option (take 500) (JSON_stringify P first))"

text \<open>The names of the own properties of an object.\<close>

definition keys :: "props \<Rightarrow> string set" where
  "keys ps = fst ` set ps"

text \<open>
  The request \<open>query\<close> posts, given the parsed \<open>authHeaders\<close>; the number of requests
  posted so far; the events of \<open>k\<close> attempts, each an admission followed by a post.
\<close>

definition the_request :: "client \<Rightarrow> string \<Rightarrow> props \<Rightarrow> jsval \<Rightarrow> request" where
  "the_request c prompt requestPostOptions auth =
     \<lparr>url = apiEndpoint c,
      body = postOptions c prompt (merged_options (instanceOptions c) requestPostOptions),
      headers = request_headers auth\<rparr>"

definition nposts :: "world \<Rightarrow> nat" where
  "nposts w = length (posts_of (events w))"

definition attempts :: "nat \<Rightarrow> request \<Rightarrow> event list" where
  "attempts k r = concat (replicate k [Admitted, Posted r])"

subsection \<open>Example inputs\<close>

text \<open>
  A platform whose \<open>JSON.parse\<close> reads \<open>{}\<close> and rejects everything else, whose
  \<open>JSON.stringify\<close> prints \<open>null\<close> and \<open>undefined\<close> only, and which prints a number by
  its digits; a client with three attempts; a
  world whose endpoint answers every request with \<open>answer\<close>.
\<close>

definition example_platform :: platform where
  "example_platform =
     \<lparr>JSON_parse = (\<lambda>s. if s = ''{}'' then Inr (JObj [])
                         else Inl (Exn SyntaxError ''Unexpected token'')),
      JSON_stringify = (\<lambda>v. if v = JUndefined then None
                             else if v = JNull then Some ''null'' else Some ''...''),
      Number_toString = show_int\<rparr>"

definition example_client :: client where
  "example_client =
     \<lparr>model = ''m'', nrAttempts = 3, instanceOptions = [],
      apiEndpoint = ''http://localhost/v1'', authHeaders = ''{}''\<rparr>"

definition example_world :: "(nat \<Rightarrow> exn + http_response) \<Rightarrow> world" where
  "example_world answer = \<lparr>server = (\<lambda>i r. answer i), events = [], warnings = []\<rparr>"

definition ok_response :: "jsval \<Rightarrow> http_response" where
  "ok_response d = \<lparr>status = 200, statusText = ''OK'', data = d\<rparr>"

section \<open>Properties of the accessors\<close>

lemma opt_get_field: "opt_get v k = Inr (field v k)"
  by (cases v) (simp_all add: opt_get_def)

lemma get_prop_field: "\<not> nullish v \<Longrightarrow> get_prop v k = Inr (field v k)"
  by (cases v) simp_all

lemma truthy_not_nullish: "truthy v \<Longrightarrow> \<not> nullish v"
  by (cases v) simp_all

lemma str_of_Some: "str_of v = Some s \<longleftrightarrow> v = JStr s"
  by (cases v) auto

lemma typeof_str_of: "typeof v = ''string'' \<longleftrightarrow> str_of v \<noteq> None"
  by (cases v) simp_all

lemma field_nullish: "nullish v \<Longrightarrow> field v k = JUndefined"
  by (cases v) simp_all

lemma field_string_not_nullish: "field v k = JStr s \<Longrightarrow> \<not> nullish v"
  by (cases v) simp_all

section \<open>Properties of the extraction\<close>

text \<open>The selected content is the first candidate that is neither \<open>null\<close> nor \<open>undefined\<close>.\<close>

lemma selected_content_candidates:
  "selected_content c =
     Inr (case find (\<lambda>v. \<not> nullish v) (candidates c) of
            Some v \<Rightarrow> v
          | None \<Rightarrow> field c ''content'')"
  by (simp add: selected_content_def opt_get_field coalesce_def candidates_def)

lemma selected_content_found:
  "find (\<lambda>v. \<not> nullish v) (candidates c) = Some v \<Longrightarrow> selected_content c = Inr v"
  by (simp add: selected_content_candidates)

lemma push_part_fragment:
  "push_part item parts =
     Inr (parts @ (case fragment item of None \<Rightarrow> [] | Some s \<Rightarrow> [JStr s]))"
proof (cases "str_of item")
  case (Some s)
  then show ?thesis by (simp add: push_part_def fragment_def typeof_str_of str_of_Some)
next
  case None
  note n = None
  show ?thesis
  proof (cases "str_of (field item ''text'')")
    case (Some t)
    then have t: "field item ''text'' = JStr t" by (simp add: str_of_Some)
    then have "\<not> nullish item" by (rule field_string_not_nullish)
    then show ?thesis using n t
      by (simp add: push_part_def fragment_def typeof_str_of opt_get_field get_prop_field)
  next
    case None
    note nt = None
    show ?thesis
    proof (cases "str_of (field item ''content'')")
      case (Some u)
      then have u: "field item ''content'' = JStr u" by (simp add: str_of_Some)
      then have "\<not> nullish item" by (rule field_string_not_nullish)
      then show ?thesis using n nt u
        by (simp add: push_part_def fragment_def typeof_str_of opt_get_field get_prop_field)
    next
      case None
      then show ?thesis using n nt
        by (simp add: push_part_def fragment_def typeof_str_of opt_get_field)
    qed
  qed
qed

lemma collect_parts_fragments:
  "collect_parts items parts = Inr (parts @ map JStr (fragments items))"
proof (induction items arbitrary: parts)
  case Nil
  show ?case by (simp add: fragments_def map_filter_simps)
next
  case (Cons item items)
  show ?case
    by (cases "fragment item") (simp_all add: push_part_fragment Cons.IH fragments_def map_filter_simps)
qed

lemma join_strings: "join P (map JStr ss) [] = Inr (concat ss)"
proof (induction ss)
  case Nil
  show ?case by simp
next
  case (Cons s ss)
  then show ?case by (cases ss) simp_all
qed

lemma extract_array:
  assumes "selected_content c = Inr (JArr items)"
  shows "extractChoiceText P c =
     Inr (if concat (fragments items) = [] then JUndefined else JStr (concat (fragments items)))"
  using assms by (simp add: extractChoiceText_def collect_parts_fragments join_strings)

lemma extract_string:
  assumes "selected_content c = Inr (JStr s)"
  shows "extractChoiceText P c = Inr (JStr s)"
  using assms by (simp add: extractChoiceText_def)

lemma extract_returns:
  "\<exists>v. extractChoiceText P c = Inr v \<and> (v = JUndefined \<or> (\<exists>s. v = JStr s))"
proof -
  obtain x where x: "selected_content c = Inr x"
    by (simp add: selected_content_candidates)
  show ?thesis
  proof (cases x)
    case (JArr items)
    then show ?thesis using extract_array[of c items] x by auto
  next
    case (JObj ps)
    then show ?thesis using x
      by (cases "own_prop ps ''text''") (simp_all add: extractChoiceText_def)
  qed (use x in \<open>simp_all add: extractChoiceText_def\<close>)
qed

lemma extract_extracted:
  "extractChoiceText P c = Inr (case extracted P c of None \<Rightarrow> JUndefined | Some s \<Rightarrow> JStr s)"
proof -
  obtain v where "extractChoiceText P c = Inr v" "v = JUndefined \<or> (\<exists>s. v = JStr s)"
    using extract_returns by blast
  then show ?thesis by (auto simp: extracted_def)
qed

text \<open>
  C8. Extraction is total: for every value \<open>choice\<close>, of any shape,
  \<open>extractChoiceText\<close> returns, and what it returns is a string or \<open>undefined\<close>; it
  never throws.
\<close>

theorem extractChoiceText_total:
  "\<exists>v. extractChoiceText P choice = Inr v \<and> (v = JUndefined \<or> (\<exists>s. v = JStr s))"
  by (rule extract_returns)

theorem extractChoiceText_total_witness:
  "(\<exists>v. extractChoiceText example_platform JNull = Inr v \<and> (v = JUndefined \<or> (\<exists>s. v = JStr s)))
   \<and> (\<exists>v. extractChoiceText example_platform (JArr [JNum 3, JObj [(''message'', JUndefined)]]) = Inr v
          \<and> (v = JUndefined \<or> (\<exists>s. v = JStr s)))"
  using extractChoiceText_total [of example_platform JNull]
    extractChoiceText_total
      [of example_platform "JArr [JNum 3, JObj [(''message'', JUndefined)]]"]
  by simp

text \<open>
  C1. As stated the claim fails: a choice whose \<open>message.content\<close> is the number 5,
  with no \<open>delta\<close> and with \<open>text\<close> the string \<open>y\<close>, extracts to \<open>undefined\<close>, not
  to \<open>y\<close>. The chain of \<open>??\<close> selects the first candidate that is neither \<open>null\<close> nor
  \<open>undefined\<close>, whether or not it is a string.
\<close>

theorem extraction_priority_counterexample:
  "field (field (JObj [(''message'', JObj [(''content'', JNum 5)]), (''text'', JStr ''y'')])
       ''message'') ''content'' = JNum 5
   \<and> field (JObj [(''message'', JObj [(''content'', JNum 5)]), (''text'', JStr ''y'')])
       ''text'' = JStr ''y''
   \<and> field (field (JObj [(''message'', JObj [(''content'', JNum 5)]), (''text'', JStr ''y'')])
       ''delta'') ''content'' = JUndefined
   \<and> extractChoiceText example_platform
       (JObj [(''message'', JObj [(''content'', JNum 5)]), (''text'', JStr ''y'')])
     = Inr JUndefined"
  by (simp add: extractChoiceText_def selected_content_def opt_get_def coalesce_def own_prop_def)

text \<open>
  C1, amended. Extraction selects, in the order \<open>message.content\<close>, \<open>delta.content\<close>,
  \<open>text\<close>, \<open>content\<close>, the first value that is neither \<open>null\<close> nor \<open>undefined\<close>,
  whether or not it is a string, and returns it when it is a string: the content
  selected by the code is that value (the last candidate when all four are \<open>null\<close>
  or \<open>undefined\<close>), a selected number or boolean extracts to absent without the
  later candidates being consulted, and so does a choice with no candidate. In
  particular, when \<open>message.content\<close> and \<open>delta.content\<close> are \<open>null\<close> or \<open>undefined\<close>
  and \<open>text\<close> is a string, extraction returns the \<open>text\<close> value.
\<close>

theorem extraction_priority:
  "selected_content choice =
     Inr (case find (\<lambda>v. \<not> nullish v) (candidates choice) of
            Some v \<Rightarrow> v
          | None \<Rightarrow> field choice ''content'')
   \<and> (find (\<lambda>v. \<not> nullish v) (candidates choice) = Some (JStr s)
      \<longrightarrow> extractChoiceText P choice = Inr (JStr s))
   \<and> (nullish (field (field choice ''message'') ''content'')
        \<and> nullish (field (field choice ''delta'') ''content'')
        \<and> field choice ''text'' = JStr s
      \<longrightarrow> extractChoiceText P choice = Inr (JStr s))
   \<and> (find (\<lambda>v. \<not> nullish v) (candidates other) = Some v
        \<and> typeof v \<noteq> ''string'' \<and> typeof v \<noteq> ''object''
      \<longrightarrow> extractChoiceText P other = Inr JUndefined)
   \<and> (find (\<lambda>v. \<not> nullish v) (candidates blank) = None
      \<longrightarrow> extractChoiceText P blank = Inr JUndefined)"
proof (intro conjI impI)
  show "selected_content choice =
     Inr (case find (\<lambda>v. \<not> nullish v) (candidates choice) of
            Some v \<Rightarrow> v
          | None \<Rightarrow> field choice ''content'')"
    by (rule selected_content_candidates)
next
  assume a: "find (\<lambda>v. \<not> nullish v) (candidates other) = Some v
        \<and> typeof v \<noteq> ''string'' \<and> typeof v \<noteq> ''object''"
  then have "selected_content other = Inr v"
    by (simp add: selected_content_found)
  then show "extractChoiceText P other = Inr JUndefined"
    using a by (cases v) (simp_all add: extractChoiceText_def)
next
  assume a: "find (\<lambda>v. \<not> nullish v) (candidates blank) = None"
  then have "\<forall>x \<in> set (candidates blank). nullish x"
    by (auto simp: find_None_iff)
  then have n: "nullish (field blank ''content'')"
    by (simp add: candidates_def)
  have "selected_content blank = Inr (field blank ''content'')"
    using a by (simp add: selected_content_candidates)
  then show "extractChoiceText P blank = Inr JUndefined"
    using n by (cases "field blank ''content''") (simp_all add: extractChoiceText_def)
next
  assume "find (\<lambda>v. \<not> nullish v) (candidates choice) = Some (JStr s)"
  then show "extractChoiceText P choice = Inr (JStr s)"
    by (simp add: selected_content_found extract_string)
next
  assume "nullish (field (field choice ''message'') ''content'')
        \<and> nullish (field (field choice ''delta'') ''content'')
        \<and> field choice ''text'' = JStr s"
  then have "find (\<lambda>v. \<not> nullish v) (candidates choice) = Some (JStr s)"
    by (simp add: candidates_def)
  then show "extractChoiceText P choice = Inr (JStr s)"
    by (simp add: selected_content_found extract_string)
qed

theorem extraction_priority_witness:
  "find (\<lambda>v. \<not> nullish v)
     (candidates (JObj [(''message'', JObj [(''content'', JNull)]), (''text'', JStr ''y'')]))
     = Some (JStr ''y'')
   \<and> nullish (field (field (JObj [(''message'', JObj [(''content'', JNull)]),
                (''text'', JStr ''y'')]) ''message'') ''content'')
   \<and> nullish (field (field (JObj [(''message'', JObj [(''content'', JNull)]),
                (''text'', JStr ''y'')]) ''delta'') ''content'')
   \<and> field (JObj [(''message'', JObj [(''content'', JNull)]), (''text'', JStr ''y'')]) ''text''
       = JStr ''y''
   \<and> extractChoiceText example_platform
       (JObj [(''message'', JObj [(''content'', JNull)]), (''text'', JStr ''y'')])
       = Inr (JStr ''y'')
   \<and> selected_content (JObj [(''message'', JObj [(''content'', JNull)]), (''text'', JStr ''y'')])
       = Inr (JStr ''y'')
   \<and> find (\<lambda>v. \<not> nullish v)
       (candidates (JObj [(''message'', JObj [(''content'', JBool True)]),
                          (''text'', JStr ''y'')]))
       = Some (JBool True)
   \<and> typeof (JBool True) \<noteq> ''string'' \<and> typeof (JBool True) \<noteq> ''object''
   \<and> extractChoiceText example_platform
       (JObj [(''message'', JObj [(''content'', JBool True)]), (''text'', JStr ''y'')])
       = Inr JUndefined
   \<and> find (\<lambda>v. \<not> nullish v) (candidates (JObj [(''message'', JNull)])) = None
   \<and> extractChoiceText example_platform (JObj [(''message'', JNull)]) = Inr JUndefined"
  using extraction_priority
    [where P = example_platform
       and choice = "JObj [(''message'', JObj [(''content'', JNull)]), (''text'', JStr ''y'')]"
       and s = "''y''"
       and other = "JObj [(''message'', JObj [(''content'', JBool True)]),
                          (''text'', JStr ''y'')]"
       and v = "JBool True"
       and blank = "JObj [(''message'', JNull)]"]
  by (simp add: candidates_def own_prop_def)


section \<open>Properties of the loop over the choices\<close>

lemma set_set_add: "set (set_add xs x) = insert x (set xs)"
  by (auto simp: set_add_def)

lemma distinct_set_add: "distinct xs \<Longrightarrow> distinct (set_add xs x)"
  by (simp add: set_add_def)

lemma length_set_add: "length (set_add xs x) \<le> Suc (length xs)"
  by (simp add: set_add_def)

text \<open>The set built by adding the elements of \<open>ss\<close>, in order, to \<open>acc\<close>.\<close>

lemma set_fold_set_add:
  "set (fold (\<lambda>s a. set_add a s) ss acc) = set acc \<union> set ss"
  by (induction ss arbitrary: acc) (auto simp: set_set_add)

lemma distinct_fold_set_add:
  "distinct acc \<Longrightarrow> distinct (fold (\<lambda>s a. set_add a s) ss acc)"
  by (induction ss arbitrary: acc) (simp_all add: distinct_set_add)

lemma length_fold_set_add:
  "length (fold (\<lambda>s a. set_add a s) ss acc) \<le> length acc + length ss"
proof (induction ss arbitrary: acc)
  case Nil
  show ?case by simp
next
  case (Cons s ss)
  have "length (fold (\<lambda>s a. set_add a s) ss (set_add acc s)) \<le> length (set_add acc s) + length ss"
    by (rule Cons.IH)
  also have "\<dots> \<le> Suc (length acc) + length ss"
    using length_set_add [of acc s] by simp
  finally show ?case by simp
qed

lemma fold_set_add_distinct:
  "distinct ss \<Longrightarrow> set acc \<inter> set ss = {} \<Longrightarrow> fold (\<lambda>s a. set_add a s) ss acc = acc @ ss"
proof (induction ss arbitrary: acc)
  case Nil
  show ?case by simp
next
  case (Cons s ss)
  from Cons.prems have s: "s \<notin> set acc" by auto
  from Cons.prems have "distinct ss" "set (acc @ [s]) \<inter> set ss = {}" by auto
  then have "fold (\<lambda>s a. set_add a s) ss (acc @ [s]) = (acc @ [s]) @ ss"
    by (rule Cons.IH)
  then show ?case using s by (simp add: set_add_def)
qed

lemma collect_texts_eq:
  "collect_texts P cs acc k =
     Inr (fold (\<lambda>s a. set_add a s) (List.map_filter (extracted P) cs) acc,
          k + length (skipped_choices P cs))"
proof (induction cs arbitrary: acc k)
  case Nil
  show ?case by (simp add: skipped_choices_def map_filter_simps)
next
  case (Cons c cs)
  show ?case
  proof (cases "extracted P c")
    case None
    then show ?thesis
      using extract_extracted [of P c] Cons.IH [of acc "Suc k"]
      by (simp add: skipped_choices_def map_filter_simps)
  next
    case (Some s)
    then show ?thesis
      using extract_extracted [of P c] Cons.IH [of "set_add acc s" k]
      by (simp add: skipped_choices_def map_filter_simps)
  qed
qed

lemma find_skipped_eq:
  "find_skipped P cs = Inr (case skipped_choices P cs of [] \<Rightarrow> JUndefined | first # rest \<Rightarrow> first)"
proof (induction cs)
  case Nil
  show ?case by (simp add: skipped_choices_def)
next
  case (Cons c cs)
  show ?case
  proof (cases "extracted P c")
    case None
    then show ?thesis
      using extract_extracted [of P c] by (simp add: skipped_choices_def)
  next
    case (Some s)
    then show ?thesis
      using extract_extracted [of P c] Cons.IH by (simp add: skipped_choices_def)
  qed
qed

lemma length_recovered:
  "length (List.map_filter (extracted P) cs) = length cs - length (skipped_choices P cs)"
proof -
  have "length (List.map_filter (extracted P) cs) = length (filter (\<lambda>c. extracted P c \<noteq> None) cs)"
    by (simp add: map_filter_def)
  moreover have "length (filter (\<lambda>c. extracted P c = None) cs)
      + length (filter (\<lambda>c. extracted P c \<noteq> None) cs) = length cs"
    using sum_length_filter_compl [of "\<lambda>c. extracted P c = None" cs] by (simp add: comp_def)
  ultimately show ?thesis by (simp add: skipped_choices_def)
qed

lemma set_recovered:
  "set (List.map_filter (extracted P) cs) = {s. \<exists>c \<in> set cs. extracted P c = Some s}"
proof (induction cs)
  case Nil
  show ?case by (simp add: map_filter_simps)
next
  case (Cons c cs)
  then show ?case by (cases "extracted P c") (auto simp: map_filter_simps)
qed

text \<open>Lines 163 to 183 as a whole.\<close>

lemma collect_completions_eq:
  "collect_completions P cs w =
     (Inr (fold (\<lambda>s a. set_add a s) (List.map_filter (extracted P) cs) []),
      if skipped_choices P cs = [] then w
      else console_warn (skipped_warning (length (skipped_choices P cs)) (snapshot P cs)) w)"
proof (cases "skipped_choices P cs")
  case Nil
  then show ?thesis by (simp add: collect_completions_def collect_texts_eq)
next
  case (Cons first rest)
  then show ?thesis
    by (simp add: collect_completions_def collect_texts_eq find_skipped_eq snapshot_def)
qed

section \<open>Properties of the resilient call\<close>

lemma posts_of_append: "posts_of (es @ es') = posts_of es @ posts_of es'"
  by (induction es rule: posts_of.induct) simp_all

lemma attempt_once:
  fixes r :: request
  shows "rateLimiter_next (axios_post (url r) (body r) (headers r)) w =
     (server w (nposts w) r, w\<lparr>events := events w @ [Admitted, Posted r]\<rparr>)"
  by (cases r) (simp add: rateLimiter_next_def axios_post_def Let_def posts_of_append nposts_def)

lemma attempts_Suc: "attempts (Suc k) r = [Admitted, Posted r] @ attempts k r"
  by (simp add: attempts_def)

lemma nposts_attempt: "nposts (w\<lparr>events := events w @ [Admitted, Posted r]\<rparr>) = Suc (nposts w)"
  by (simp add: nposts_def posts_of_append)

text \<open>
  The resilient call makes \<open>k\<close> attempts, each an admission followed by a post: the
  first \<open>k - 1\<close> fail, and the \<open>k\<close>-th succeeds unless the budget is spent.
\<close>

lemma retry_attempts:
  fixes r :: request
  shows "\<exists>k. 1 \<le> k \<and> k \<le> max 1 n
     \<and> retry (rateLimiter_next (axios_post (url r) (body r) (headers r))) n w
         = (server w (nposts w + (k - 1)) r, w\<lparr>events := events w @ attempts k r\<rparr>)
     \<and> (\<forall>i<k - 1. isl (server w (nposts w + i) r))
     \<and> (k < max 1 n \<longrightarrow> \<not> isl (server w (nposts w + (k - 1)) r))"
proof (induction n arbitrary: w)
  case 0
  have "retry (rateLimiter_next (axios_post (url r) (body r) (headers r))) 0 w
      = (server w (nposts w + (1 - 1)) r, w\<lparr>events := events w @ attempts 1 r\<rparr>)"
    by (simp add: attempt_once attempts_def)
  then show ?case by (intro exI [of _ 1]) simp
next
  case (Suc n)
  let ?att = "rateLimiter_next (axios_post (url r) (body r) (headers r))"
  let ?w1 = "w\<lparr>events := events w @ [Admitted, Posted r]\<rparr>"
  have one: "?att w = (server w (nposts w + (1 - 1)) r, w\<lparr>events := events w @ attempts 1 r\<rparr>)"
    by (simp add: attempt_once attempts_def)
  show ?case
  proof (cases n)
    case 0
    then have "retry ?att (Suc n) w = ?att w" by simp
    with one \<open>n = 0\<close> show ?thesis by (intro exI [of _ 1]) simp
  next
    case (Suc m)
    show ?thesis
    proof (cases "server w (nposts w) r")
      case (Inr res)
      then have "retry ?att (Suc n) w = ?att w"
        using Suc by (simp add: attempt_once)
      with one Inr show ?thesis by (intro exI [of _ 1]) simp
    next
      case (Inl e)
      then have step: "retry ?att (Suc n) w = retry ?att n ?w1"
        using Suc by (simp add: attempt_once)
      from Suc.IH [of ?w1] obtain k where k: "1 \<le> k" "k \<le> max 1 n"
        and res: "retry ?att n ?w1
           = (server ?w1 (nposts ?w1 + (k - 1)) r, ?w1\<lparr>events := events ?w1 @ attempts k r\<rparr>)"
        and fails: "\<forall>i<k - 1. isl (server ?w1 (nposts ?w1 + i) r)"
        and last: "k < max 1 n \<longrightarrow> \<not> isl (server ?w1 (nposts ?w1 + (k - 1)) r)"
        by blast
      have a: "1 \<le> Suc k" "Suc k \<le> max 1 (Suc n)" using k Suc by auto
      have b: "retry ?att (Suc n) w
          = (server w (nposts w + (Suc k - 1)) r, w\<lparr>events := events w @ attempts (Suc k) r\<rparr>)"
        using step res k by (simp add: nposts_attempt attempts_Suc)
      have c: "\<forall>i<Suc k - 1. isl (server w (nposts w + i) r)"
      proof (intro allI impI)
        fix i assume i: "i < Suc k - 1"
        show "isl (server w (nposts w + i) r)"
        proof (cases i)
          case 0
          then show ?thesis using Inl by simp
        next
          case (Suc j)
          then have "j < k - 1" using i by simp
          then have "isl (server ?w1 (nposts ?w1 + j) r)" using fails by blast
          then show ?thesis using Suc by (simp add: nposts_attempt)
        qed
      qed
      have d: "Suc k < max 1 (Suc n) \<longrightarrow> \<not> isl (server w (nposts w + (Suc k - 1)) r)"
        using last k Suc by (simp add: nposts_attempt)
      from a b c d show ?thesis by blast
    qed
  qed
qed

lemma send_request_parse_error:
  "JSON_parse P (authHeaders c) = Inl e \<Longrightarrow> send_request P c prompt opts w = (Inl e, w)"
  by (simp add: send_request_def)

lemma send_request_retry:
  "JSON_parse P (authHeaders c) = Inr auth \<Longrightarrow>
   send_request P c prompt opts w =
     retry (rateLimiter_next
              (axios_post (url (the_request c prompt opts auth))
                 (body (the_request c prompt opts auth))
                 (headers (the_request c prompt opts auth))))
       (nrAttempts c) w"
  by (simp add: send_request_def the_request_def Let_def)

lemma send_request_warnings: "warnings (snd (send_request P c prompt opts w)) = warnings w"
proof (cases "JSON_parse P (authHeaders c)")
  case (Inl e)
  then show ?thesis by (simp add: send_request_parse_error)
next
  case (Inr auth)
  obtain k where "send_request P c prompt opts w
      = (server w (nposts w + (k - 1)) (the_request c prompt opts auth),
         w\<lparr>events := events w @ attempts k (the_request c prompt opts auth)\<rparr>)"
    using retry_attempts [of "nrAttempts c" "the_request c prompt opts auth" w]
      send_request_retry [OF Inr, of prompt opts w] by auto
  then show ?thesis by simp
qed

section \<open>Properties of the checks on the response\<close>


text \<open>The checks of lines 143 to 161 in their order; no member access in them throws.\<close>

lemma check_response_eq:
  "check_response P res w =
     (if status res \<noteq> 200 then
        (Inl (Exn Error (''Request failed with status '' @ Number_toString P (status res)
                          @ '' and message '' @ statusText res)), w)
      else if \<not> truthy (data res) then (Inl (Exn Error ''Response data is empty''), w)
      else if truthy (field (data res) ''error'') then
        (Inl (new_Error P (field (data res) ''error'')), w)
      else if \<not> isArray (field (data res) ''choices'') then
        (Inl (Exn Error (''Unexpected LLM response format: expected choices array, got ''
                          @ typeof (field (data res) ''choices''))), w)
      else collect_completions P (elements (field (data res) ''choices'')) w)"
  by (simp add: check_response_def Let_def get_prop_field truthy_not_nullish)

lemma check_response_failure:
  "check_response P res w = (Inl e, w') \<Longrightarrow> w' = w"
  by (simp add: check_response_eq collect_completions_eq split: if_splits)

lemma check_response_distinct:
  "check_response P res w = (Inr texts, w') \<Longrightarrow> distinct texts"
  by (auto simp: check_response_eq collect_completions_eq distinct_fold_set_add split: if_splits)

lemma query_failure_warnings:
  assumes "query P c prompt opts w = (Inl e, w')"
  shows "warnings w' = warnings w"
proof (cases "send_request P c prompt opts w")
  case (Pair r w1)
  have w1: "warnings w1 = warnings w"
    using send_request_warnings [of P c prompt opts w] Pair by simp
  show ?thesis
  proof (cases r)
    case (Inl e1)
    then show ?thesis using assms Pair w1 by (simp add: query_def)
  next
    case (Inr res)
    then have "check_response P res w1 = (Inl e, w')"
      using assms Pair by (simp add: query_def)
    then have "w' = w1" by (rule check_response_failure)
    then show ?thesis using w1 by simp
  qed
qed

lemma query_distinct:
  assumes "query P c prompt opts w = (Inr texts, w')"
  shows "distinct texts"
proof (cases "send_request P c prompt opts w")
  case (Pair r w1)
  show ?thesis
  proof (cases r)
    case (Inl e1)
    then show ?thesis using assms Pair by (simp add: query_def)
  next
    case (Inr res)
    then have "check_response P res w1 = (Inr texts, w')"
      using assms Pair by (simp add: query_def)
    then show ?thesis by (rule check_response_distinct)
  qed
qed

lemma query_after_send:
  "send_request P c prompt opts w = (Inr res, w') \<Longrightarrow>
   query P c prompt opts w = check_response P res w'"
  by (simp add: query_def)

section \<open>Properties of objects\<close>

lemma own_prop_absent: "k \<notin> keys ps \<Longrightarrow> own_prop ps k = JUndefined"
proof -
  assume "k \<notin> keys ps"
  then have "map_of (rev ps) k = None"
    by (simp add: map_of_eq_None_iff keys_def)
  then show ?thesis by (simp add: own_prop_def)
qed

lemma own_prop_append:
  "own_prop (ps @ qs) k = (if k \<in> keys qs then own_prop qs k else own_prop ps k)"
proof (cases "map_of (rev qs) k")
  case None
  then have "k \<notin> keys qs" by (simp add: map_of_eq_None_iff keys_def)
  then show ?thesis using None by (simp add: own_prop_def map_add_def)
next
  case (Some v)
  then have "k \<in> keys qs"
    using map_of_eq_None_iff [of "rev qs" k] by (simp add: keys_def)
  then show ?thesis using Some by (simp add: own_prop_def map_add_def)
qed

lemma own_prop_single: "own_prop [(a, b)] k = (if k = a then b else JUndefined)"
  by (simp add: own_prop_def)

lemma own_prop_Cons:
  "own_prop ((a, b) # ps) k =
     (if k \<in> keys ps then own_prop ps k else if k = a then b else JUndefined)"
  using own_prop_append [of "[(a, b)]" ps k] by (simp add: own_prop_single)

lemma keys_Cons: "keys ((a, b) # ps) = insert a (keys ps)"
  by (simp add: keys_def)

lemma keys_Nil: "keys [] = {}"
  by (simp add: keys_def)

lemma keys_overwrite:
  "keys (map (\<lambda>p. if fst p = k then (k, v) else p) ps) = keys ps"
  by (induction ps) (auto simp: keys_def)

lemma own_prop_overwrite:
  "k \<in> keys ps \<Longrightarrow>
   own_prop (map (\<lambda>p. if fst p = k then (k, v) else p) ps) j =
     (if j = k then v else own_prop ps j)"
proof (induction ps arbitrary: j)
  case Nil
  then show ?case by (simp add: keys_def)
next
  case (Cons p ps)
  obtain a b where p: "p = (a, b)" by (cases p)
  show ?case
  proof (cases "k \<in> keys ps")
    case True
    then show ?thesis
      using Cons.IH [OF True] p by (simp add: own_prop_Cons keys_overwrite)
  next
    case False
    then have "a = k" using Cons.prems p by (simp add: keys_Cons)
    moreover have "map (\<lambda>p. if fst p = k then (k, v) else p) ps = ps"
      using False by (induction ps) (auto simp: keys_def)
    ultimately show ?thesis using p False by (simp add: own_prop_Cons)
  qed
qed

lemma keys_obj_set: "keys (obj_set ps k v) = insert k (keys ps)"
proof (cases "k \<in> keys ps")
  case True
  then show ?thesis
    using keys_overwrite [of k v ps] by (auto simp: obj_set_def keys_def)
next
  case False
  then show ?thesis by (auto simp: obj_set_def keys_def)
qed

lemma own_prop_obj_set:
  "own_prop (obj_set ps k v) j = (if j = k then v else own_prop ps j)"
proof (cases "k \<in> keys ps")
  case True
  then have "obj_set ps k v = map (\<lambda>p. if fst p = k then (k, v) else p) ps"
    by (simp add: obj_set_def keys_def)
  then show ?thesis using own_prop_overwrite [OF True] by simp
next
  case False
  then have "obj_set ps k v = ps @ [(k, v)]"
    by (simp add: obj_set_def keys_def)
  then show ?thesis by (simp add: own_prop_append own_prop_single keys_Cons keys_def)
qed

lemma spread_Nil: "spread target [] = target"
  by (simp add: spread_def)

lemma spread_Cons: "spread target ((a, b) # src) = spread (obj_set target a b) src"
  by (simp add: spread_def)

lemma keys_spread: "keys (spread target src) = keys target \<union> keys src"
proof (induction src arbitrary: target)
  case Nil
  show ?case by (simp add: spread_Nil keys_Nil)
next
  case (Cons p src)
  obtain a b where p: "p = (a, b)" by (cases p)
  have "keys (spread (obj_set target a b) src) = keys (obj_set target a b) \<union> keys src"
    by (rule Cons.IH)
  then show ?case
    unfolding p spread_Cons keys_Cons keys_obj_set by blast
qed

text \<open>A spread is a key-wise overlay: the later object wins where it has the key.\<close>

lemma own_prop_spread:
  "own_prop (spread target src) k =
     (if k \<in> keys src then own_prop src k else own_prop target k)"
proof (induction src arbitrary: target)
  case Nil
  show ?case by (simp add: spread_Nil keys_Nil)
next
  case (Cons p src)
  obtain a b where p: "p = (a, b)" by (cases p)
  have IH: "own_prop (spread (obj_set target a b) src) k =
      (if k \<in> keys src then own_prop src k else own_prop (obj_set target a b) k)"
    by (rule Cons.IH)
  show ?case
  proof (cases "k \<in> keys src")
    case True
    then show ?thesis
      unfolding p spread_Cons IH by (simp add: own_prop_Cons keys_Cons)
  next
    case False
    then show ?thesis
      unfolding p spread_Cons IH by (auto simp add: own_prop_Cons keys_Cons own_prop_obj_set)
  qed
qed

text \<open>
  C4. Option resolution is a shallow key-wise overlay of the builtin defaults, the
  instance options and the request options: for every key \<open>k\<close> the resolved value is
  the request's if the key is present there, else the instance's if present there,
  else the builtin default. A key present with value \<open>undefined\<close> at a higher layer
  overrides the value of a lower layer with \<open>undefined\<close>.
\<close>

theorem option_resolution:
  "own_prop (merged_options inst req) k =
     (if k \<in> keys req then own_prop req k
      else if k \<in> keys inst then own_prop inst k
      else own_prop defaultPostOptions k)
   \<and> keys (merged_options inst req) = keys defaultPostOptions \<union> keys inst \<union> keys req
   \<and> (k1 \<in> keys req \<and> own_prop req k1 = JUndefined
        \<longrightarrow> own_prop (merged_options inst req) k1 = JUndefined)
   \<and> (k2 \<notin> keys req \<and> k2 \<in> keys inst \<and> own_prop inst k2 = JUndefined
        \<longrightarrow> own_prop (merged_options inst req) k2 = JUndefined)"
  by (simp add: merged_options_def own_prop_spread keys_spread keys_Nil own_prop_absent)

theorem option_resolution_witness:
  "own_prop (merged_options [(''top_p'', JUndefined)] [(''temperature'', JUndefined)]) ''max_tokens''
     = JNum 1000
   \<and> ''temperature'' \<in> keys [(''temperature'', JUndefined)]
   \<and> own_prop [(''temperature'', JUndefined)] ''temperature'' = JUndefined
   \<and> own_prop defaultPostOptions ''temperature'' = JNum 0
   \<and> own_prop (merged_options [(''top_p'', JUndefined)] [(''temperature'', JUndefined)])
       ''temperature'' = JUndefined
   \<and> ''top_p'' \<notin> keys [(''temperature'', JUndefined)]
   \<and> ''top_p'' \<in> keys [(''top_p'', JUndefined)]
   \<and> own_prop [(''top_p'', JUndefined)] ''top_p'' = JUndefined
   \<and> own_prop (merged_options [(''top_p'', JUndefined)] [(''temperature'', JUndefined)])
       ''top_p'' = JUndefined"
  using option_resolution [of "[(''top_p'', JUndefined)]" "[(''temperature'', JUndefined)]"
      "''max_tokens''" "''temperature''" "''top_p''"]
  by (simp add: keys_def own_prop_def defaultPostOptions_def)

text \<open>
  C6. When the selected content of a choice is an array, extraction takes from each
  element, in order, the element itself if it is a string, else its \<open>text\<close> field if
  a string, else its \<open>content\<close> field if a string, and concatenates the fragments
  with no separator; \<open>["a", {text: "b"}, {content: "c"}]\<close> extracts to \<open>abc\<close>, and
  when no fragment is recovered, as for the empty array, the result is absent.
\<close>

theorem array_of_parts:
  "(find (\<lambda>v. \<not> nullish v) (candidates choice) = Some (JArr items)
      \<longrightarrow> extractChoiceText P choice =
            Inr (if concat (fragments items) = [] then JUndefined
                 else JStr (concat (fragments items))))
   \<and> (find (\<lambda>v. \<not> nullish v) (candidates choice) = Some (JArr items) \<and> fragments items = []
      \<longrightarrow> extractChoiceText P choice = Inr JUndefined)
   \<and> extractChoiceText P
        (JObj [(''content'',
                JArr [JStr ''a'', JObj [(''text'', JStr ''b'')], JObj [(''content'', JStr ''c'')]])])
       = Inr (JStr ''abc'')
   \<and> extractChoiceText P (JObj [(''content'', JArr [])]) = Inr JUndefined"
proof (intro conjI impI)
  assume "find (\<lambda>v. \<not> nullish v) (candidates choice) = Some (JArr items)"
  then show "extractChoiceText P choice =
      Inr (if concat (fragments items) = [] then JUndefined else JStr (concat (fragments items)))"
    by (simp add: selected_content_found extract_array)
next
  assume "find (\<lambda>v. \<not> nullish v) (candidates choice) = Some (JArr items) \<and> fragments items = []"
  then show "extractChoiceText P choice = Inr JUndefined"
    by (simp add: selected_content_found extract_array)
next
  have "find (\<lambda>v. \<not> nullish v)
      (candidates (JObj [(''content'',
         JArr [JStr ''a'', JObj [(''text'', JStr ''b'')], JObj [(''content'', JStr ''c'')]])]))
    = Some (JArr [JStr ''a'', JObj [(''text'', JStr ''b'')], JObj [(''content'', JStr ''c'')]])"
    by (simp add: candidates_def own_prop_def)
  then show "extractChoiceText P
        (JObj [(''content'',
                JArr [JStr ''a'', JObj [(''text'', JStr ''b'')], JObj [(''content'', JStr ''c'')]])])
       = Inr (JStr ''abc'')"
    by (simp add: selected_content_found extract_array fragments_def fragment_def
        map_filter_simps own_prop_def)
next
  have "find (\<lambda>v. \<not> nullish v) (candidates (JObj [(''content'', JArr [])])) = Some (JArr [])"
    by (simp add: candidates_def own_prop_def)
  then show "extractChoiceText P (JObj [(''content'', JArr [])]) = Inr JUndefined"
    by (simp add: selected_content_found extract_array fragments_def map_filter_simps)
qed

theorem array_of_parts_witness:
  "find (\<lambda>v. \<not> nullish v)
     (candidates (JObj [(''message'', JObj [(''content'', JArr [JNum 1, JNull])])]))
     = Some (JArr [JNum 1, JNull])
   \<and> fragments [JNum 1, JNull] = []
   \<and> extractChoiceText example_platform (JObj [(''message'', JObj [(''content'', JArr [JNum 1, JNull])])])
       = Inr JUndefined"
  using array_of_parts
    [where P = example_platform
       and choice = "JObj [(''message'', JObj [(''content'', JArr [JNum 1, JNull])])]"
       and items = "[JNum 1, JNull]"]
  by (simp add: candidates_def own_prop_def fragments_def fragment_def map_filter_simps)

text \<open>
  C10. The empty string is treated asymmetrically. A choice whose selected content
  (\<open>message.content\<close>, or \<open>delta.content\<close>, \<open>text\<close>, \<open>content\<close> when the ones before are
  \<open>null\<close> or \<open>undefined\<close>) is the empty string extracts to the empty string, which the
  loop of \<open>query\<close> inserts into the result and does not count as skipped. A choice
  whose selected content is an array of parts with fragments that concatenate to no
  character extracts to absent, and the loop counts it as skipped.
\<close>

theorem empty_string_asymmetry:
  "(find (\<lambda>v. \<not> nullish v) (candidates c) = Some (JStr [])
      \<longrightarrow> extractChoiceText P c = Inr (JStr [])
          \<and> (c \<in> set choices \<longrightarrow>
               (\<exists>texts. collect_texts P choices [] 0 = Inr (texts, length (skipped_choices P choices))
                        \<and> [] \<in> set texts \<and> c \<notin> set (skipped_choices P choices))))
   \<and> (find (\<lambda>v. \<not> nullish v) (candidates c') = Some (JArr items) \<and> concat (fragments items) = []
      \<longrightarrow> extractChoiceText P c' = Inr JUndefined
          \<and> (c' \<in> set choices \<longrightarrow>
               (\<exists>texts. collect_texts P choices [] 0 = Inr (texts, length (skipped_choices P choices))
                        \<and> set texts = {s. \<exists>x \<in> set choices. extracted P x = Some s}
                        \<and> c' \<in> set (skipped_choices P choices))))"
proof (intro conjI impI)
  assume "find (\<lambda>v. \<not> nullish v) (candidates c) = Some (JStr [])"
  then show "extractChoiceText P c = Inr (JStr [])"
    by (simp add: selected_content_found extract_string)
next
  assume "find (\<lambda>v. \<not> nullish v) (candidates c) = Some (JStr [])" and c: "c \<in> set choices"
  then have "extractChoiceText P c = Inr (JStr [])"
    by (simp add: selected_content_found extract_string)
  then have e: "extracted P c = Some []" by (simp add: extracted_def)
  then have "[] \<in> set (List.map_filter (extracted P) choices)"
    using c by (auto simp: set_recovered)
  then show "\<exists>texts. collect_texts P choices [] 0 = Inr (texts, length (skipped_choices P choices))
      \<and> [] \<in> set texts \<and> c \<notin> set (skipped_choices P choices)"
    using e by (simp add: collect_texts_eq set_fold_set_add skipped_choices_def)
next
  assume "find (\<lambda>v. \<not> nullish v) (candidates c') = Some (JArr items) \<and> concat (fragments items) = []"
  then show "extractChoiceText P c' = Inr JUndefined"
    by (simp add: selected_content_found extract_array)
next
  assume "find (\<lambda>v. \<not> nullish v) (candidates c') = Some (JArr items) \<and> concat (fragments items) = []"
    and c: "c' \<in> set choices"
  then have "extractChoiceText P c' = Inr JUndefined"
    by (simp add: selected_content_found extract_array)
  then have e: "extracted P c' = None" by (simp add: extracted_def)
  show "\<exists>texts. collect_texts P choices [] 0 = Inr (texts, length (skipped_choices P choices))
      \<and> set texts = {s. \<exists>x \<in> set choices. extracted P x = Some s}
      \<and> c' \<in> set (skipped_choices P choices)"
    using e c by (simp add: collect_texts_eq set_fold_set_add set_recovered skipped_choices_def)
qed

theorem empty_string_asymmetry_witness:
  "find (\<lambda>v. \<not> nullish v) (candidates (JObj [(''message'', JObj [(''content'', JStr [])])]))
     = Some (JStr [])
   \<and> extractChoiceText example_platform (JObj [(''message'', JObj [(''content'', JStr [])])]) = Inr (JStr [])
   \<and> find (\<lambda>v. \<not> nullish v)
       (candidates (JObj [(''content'', JArr [JStr [], JObj [(''text'', JStr [])]])]))
     = Some (JArr [JStr [], JObj [(''text'', JStr [])]])
   \<and> concat (fragments [JStr [], JObj [(''text'', JStr [])]]) = []
   \<and> extractChoiceText example_platform (JObj [(''content'', JArr [JStr [], JObj [(''text'', JStr [])]])])
     = Inr JUndefined
   \<and> collect_texts example_platform
       [JObj [(''message'', JObj [(''content'', JStr [])])],
        JObj [(''content'', JArr [JStr [], JObj [(''text'', JStr [])]])]] [] 0
     = Inr ([[]], 1)"
  using empty_string_asymmetry
    [where P = example_platform
       and c = "JObj [(''message'', JObj [(''content'', JStr [])])]"
       and choices = "[JObj [(''message'', JObj [(''content'', JStr [])])],
          JObj [(''content'', JArr [JStr [], JObj [(''text'', JStr [])]])]]"
       and c' = "JObj [(''content'', JArr [JStr [], JObj [(''text'', JStr [])]])]"
       and items = "[JStr [], JObj [(''text'', JStr [])]]"]
  by (simp add: candidates_def own_prop_def fragments_def fragment_def map_filter_simps
      skipped_choices_def extracted_def set_add_def)

lemma field_truthy: "\<not> nullish (field v k) \<Longrightarrow> truthy v"
  by (cases v) simp_all

lemma send_request_result:
  "fst (send_request P c prompt opts w) = Inr res \<Longrightarrow>
   send_request P c prompt opts w = (Inr res, snd (send_request P c prompt opts w))"
  by (cases "send_request P c prompt opts w") simp




section \<open>Properties of query and completions\<close>

lemma check_response_events: "events (snd (check_response P res w)) = events w"
  by (simp add: check_response_eq collect_completions_eq console_warn_def)

lemma query_events:
  "events (snd (query P c prompt opts w)) = events (snd (send_request P c prompt opts w))"
proof (cases "send_request P c prompt opts w")
  case (Pair r w1)
  then show ?thesis
    by (cases r) (simp_all add: query_def check_response_events)
qed

lemma query_send_failure:
  "send_request P c prompt opts w = (Inl e, w') \<Longrightarrow> query P c prompt opts w = (Inl e, w')"
  by (simp add: query_def)

lemma send_request_attempts:
  assumes "JSON_parse P (authHeaders c) = Inr auth"
  shows "\<exists>k. 1 \<le> k \<and> k \<le> max 1 (nrAttempts c)
     \<and> send_request P c prompt opts w
         = (server w (nposts w + (k - 1)) (the_request c prompt opts auth),
            w\<lparr>events := events w @ attempts k (the_request c prompt opts auth)\<rparr>)
     \<and> (\<forall>i<k - 1. isl (server w (nposts w + i) (the_request c prompt opts auth)))
     \<and> (k < max 1 (nrAttempts c)
          \<longrightarrow> \<not> isl (server w (nposts w + (k - 1)) (the_request c prompt opts auth)))"
  unfolding send_request_retry [OF assms] by (rule retry_attempts)

text \<open>
  C9. The check on the \<open>error\<close> field tests truthiness, not presence: when the body
  of the response has an \<open>error\<close> field that is the empty string, 0, \<open>false\<close> or
  \<open>null\<close>, \<open>query\<close> does not fail on it and goes on to the check of \<open>choices\<close>.
\<close>

theorem falsy_error_field:
  assumes "fst (send_request P c prompt opts w) = Inr res"
    and "status res = 200"
    and "data res = JObj ps"
    and "''error'' \<in> keys ps"
    and "own_prop ps ''error'' = JStr [] \<or> own_prop ps ''error'' = JNum 0
         \<or> own_prop ps ''error'' = JBool False \<or> own_prop ps ''error'' = JNull"
  shows "query P c prompt opts w =
     (if isArray (own_prop ps ''choices'') then
        collect_completions P (elements (own_prop ps ''choices''))
          (snd (send_request P c prompt opts w))
      else
        (Inl (Exn Error (''Unexpected LLM response format: expected choices array, got ''
                          @ typeof (own_prop ps ''choices''))),
         snd (send_request P c prompt opts w)))
   \<and> (isArray (own_prop ps ''choices'') \<longrightarrow> (\<exists>texts. fst (query P c prompt opts w) = Inr texts))"
proof -
  have q: "query P c prompt opts w = check_response P res (snd (send_request P c prompt opts w))"
    using send_request_result [OF assms(1)] by (rule query_after_send)
  have f: "\<not> truthy (own_prop ps ''error'')"
    using assms(5) by auto
  show ?thesis
    using assms(2,3) f by (simp add: q check_response_eq collect_completions_eq)
qed

theorem falsy_error_field_witness:
  "fst (send_request example_platform example_client ''p'' []
          (example_world (\<lambda>i. Inr (ok_response
             (JObj [(''error'', JNum 0), (''choices'', JArr [JObj [(''text'', JStr ''t'')]])])))))
     = Inr (ok_response
             (JObj [(''error'', JNum 0), (''choices'', JArr [JObj [(''text'', JStr ''t'')]])]))
   \<and> status (ok_response
             (JObj [(''error'', JNum 0), (''choices'', JArr [JObj [(''text'', JStr ''t'')]])])) = 200
   \<and> ''error'' \<in> keys [(''error'', JNum 0), (''choices'', JArr [JObj [(''text'', JStr ''t'')]])]
   \<and> own_prop [(''error'', JNum 0), (''choices'', JArr [JObj [(''text'', JStr ''t'')]])] ''error''
       = JNum 0
   \<and> isArray (own_prop [(''error'', JNum 0), (''choices'', JArr [JObj [(''text'', JStr ''t'')]])]
        ''choices'')
   \<and> fst (query example_platform example_client ''p'' []
          (example_world (\<lambda>i. Inr (ok_response
             (JObj [(''error'', JNum 0), (''choices'', JArr [JObj [(''text'', JStr ''t'')]])])))))
     = Inr [''t'']"
  using falsy_error_field
    [of example_platform example_client "''p''" "[]"
        "example_world (\<lambda>i. Inr (ok_response
             (JObj [(''error'', JNum 0), (''choices'', JArr [JObj [(''text'', JStr ''t'')]])])))"
        "ok_response
             (JObj [(''error'', JNum 0), (''choices'', JArr [JObj [(''text'', JStr ''t'')]])])"
        "[(''error'', JNum 0), (''choices'', JArr [JObj [(''text'', JStr ''t'')]])]"]
  by (simp add: send_request_def example_platform_def example_client_def
      example_world_def ok_response_def numeral_3_eq_3 rateLimiter_next_def axios_post_def
      own_prop_def keys_def Let_def collect_completions_def extractChoiceText_def
      selected_content_def opt_get_def coalesce_def set_add_def)

text \<open>
  C7. For a response with \<open>N\<close> choices of which \<open>M\<close> extract to absent, \<open>query\<close>
  returns the set of the recovered texts, without duplicates and of size at most
  \<open>N - M\<close>; skipped choices are not inserted, and the set is empty when every choice
  is skipped. When \<open>M > 0\<close> exactly one warning is written, which carries the count
  and the \<open>JSON.stringify\<close> snapshot of the first skipped choice cut to at most 500
  characters; when \<open>M = 0\<close> none is written.
\<close>

theorem skip_accounting:
  assumes "fst (send_request P c prompt opts w) = Inr res"
    and "status res = 200"
    and "\<not> truthy (field (data res) ''error'')"
    and "field (data res) ''choices'' = JArr choices"
  shows "\<exists>texts.
     fst (query P c prompt opts w) = Inr texts
     \<and> distinct texts
     \<and> set texts = {s. \<exists>x \<in> set choices. extracted P x = Some s}
     \<and> length texts \<le> length choices - length (skipped_choices P choices)
     \<and> ((\<forall>x \<in> set choices. extracted P x = None) \<longrightarrow> texts = [])
     \<and> (skipped_choices P choices = [] \<longrightarrow> warnings (snd (query P c prompt opts w)) = warnings w)
     \<and> (\<forall>first rest. skipped_choices P choices = first # rest \<longrightarrow>
          warnings (snd (query P c prompt opts w)) =
            warnings w @
            [''Warning: skipped '' @ show_nat (Suc (length rest))
               @ '' LLM choice(s) with no text content. Example: ''
               @ (case JSON_stringify P first of
                    None \<Rightarrow> ''undefined''
                  | Some snap \<Rightarrow> take 500 snap)]
          \<and> length (case JSON_stringify P first of
                       None \<Rightarrow> ''undefined''
                     | Some snap \<Rightarrow> take 500 snap) \<le> 500)"
proof -
  let ?w' = "snd (send_request P c prompt opts w)"
  let ?texts = "fold (\<lambda>s a. set_add a s) (List.map_filter (extracted P) choices) []"
  have "\<not> nullish (field (data res) ''choices'')" using assms(4) by simp
  then have t: "truthy (data res)" by (rule field_truthy)
  have w': "warnings ?w' = warnings w" by (rule send_request_warnings)
  have "query P c prompt opts w = check_response P res ?w'"
    using send_request_result [OF assms(1)] by (rule query_after_send)
  then have q: "query P c prompt opts w =
      (Inr ?texts,
       if skipped_choices P choices = [] then ?w'
       else console_warn (skipped_warning (length (skipped_choices P choices)) (snapshot P choices)) ?w')"
    using assms(2,3,4) t by (simp add: check_response_eq collect_completions_eq)
  have 1: "fst (query P c prompt opts w) = Inr ?texts" by (simp add: q)
  have 2: "distinct ?texts" by (simp add: distinct_fold_set_add)
  have 3: "set ?texts = {s. \<exists>x \<in> set choices. extracted P x = Some s}"
    by (simp add: set_fold_set_add set_recovered)
  have 4: "length ?texts \<le> length choices - length (skipped_choices P choices)"
    using length_fold_set_add [of "List.map_filter (extracted P) choices" "[]"]
    by (simp add: length_recovered)
  have 5: "(\<forall>x \<in> set choices. extracted P x = None) \<longrightarrow> ?texts = []"
  proof
    assume "\<forall>x \<in> set choices. extracted P x = None"
    then have "set ?texts = {}" unfolding 3 by simp
    then show "?texts = []" by simp
  qed
  have 6: "skipped_choices P choices = [] \<longrightarrow> warnings (snd (query P c prompt opts w)) = warnings w"
    by (simp add: q w')
  have 7: "\<forall>first rest. skipped_choices P choices = first # rest \<longrightarrow>
          warnings (snd (query P c prompt opts w)) =
            warnings w @
            [''Warning: skipped '' @ show_nat (Suc (length rest))
               @ '' LLM choice(s) with no text content. Example: ''
               @ (case JSON_stringify P first of
                    None \<Rightarrow> ''undefined''
                  | Some snap \<Rightarrow> take 500 snap)]
          \<and> length (case JSON_stringify P first of
                       None \<Rightarrow> ''undefined''
                     | Some snap \<Rightarrow> take 500 snap) \<le> 500"
  proof (intro allI impI)
    fix first rest
    assume s: "skipped_choices P choices = first # rest"
    have "warnings (snd (query P c prompt opts w)) =
        warnings w @ [skipped_warning (Suc (length rest)) (snapshot P choices)]"
      using s by (simp add: q w' console_warn_def)
    moreover have "skipped_warning (Suc (length rest)) (snapshot P choices) =
        ''Warning: skipped '' @ show_nat (Suc (length rest))
               @ '' LLM choice(s) with no text content. Example: ''
               @ (case JSON_stringify P first of
                    None \<Rightarrow> ''undefined''
                  | Some snap \<Rightarrow> take 500 snap)"
      using s by (cases "JSON_stringify P first") (simp_all add: skipped_warning_def snapshot_def)
    moreover have "length (case JSON_stringify P first of
                       None \<Rightarrow> ''undefined''
                     | Some snap \<Rightarrow> take 500 snap) \<le> 500"
      by (cases "JSON_stringify P first") simp_all
    ultimately show "warnings (snd (query P c prompt opts w)) =
            warnings w @
            [''Warning: skipped '' @ show_nat (Suc (length rest))
               @ '' LLM choice(s) with no text content. Example: ''
               @ (case JSON_stringify P first of
                    None \<Rightarrow> ''undefined''
                  | Some snap \<Rightarrow> take 500 snap)]
          \<and> length (case JSON_stringify P first of
                       None \<Rightarrow> ''undefined''
                     | Some snap \<Rightarrow> take 500 snap) \<le> 500"
      by simp
  qed
  from 1 2 3 4 5 6 7 show ?thesis by blast
qed

theorem skip_accounting_witness:
  "fst (send_request example_platform example_client ''write a test'' []
          (example_world (\<lambda>i. Inr (ok_response (JObj [(''choices'',
      JArr [JObj [(''message'', JObj [(''content'', JStr ''t1'')])],
           JObj [(''message'', JObj [(''content'', JStr ''t1'')])],
           JObj [(''text'', JStr ''t2'')],
           JNull])])))))
     = Inr (ok_response (JObj [(''choices'',
      JArr [JObj [(''message'', JObj [(''content'', JStr ''t1'')])],
           JObj [(''message'', JObj [(''content'', JStr ''t1'')])],
           JObj [(''text'', JStr ''t2'')],
           JNull])]))
   \<and> status (ok_response (JObj [(''choices'',
      JArr [JObj [(''message'', JObj [(''content'', JStr ''t1'')])],
           JObj [(''message'', JObj [(''content'', JStr ''t1'')])],
           JObj [(''text'', JStr ''t2'')],
           JNull])])) = 200
   \<and> \<not> truthy (field (data (ok_response (JObj [(''choices'',
      JArr [JObj [(''message'', JObj [(''content'', JStr ''t1'')])],
           JObj [(''message'', JObj [(''content'', JStr ''t1'')])],
           JObj [(''text'', JStr ''t2'')],
           JNull])]))) ''error'')
   \<and> field (data (ok_response (JObj [(''choices'',
      JArr [JObj [(''message'', JObj [(''content'', JStr ''t1'')])],
           JObj [(''message'', JObj [(''content'', JStr ''t1'')])],
           JObj [(''text'', JStr ''t2'')],
           JNull])]))) ''choices''
       = JArr [JObj [(''message'', JObj [(''content'', JStr ''t1'')])],
           JObj [(''message'', JObj [(''content'', JStr ''t1'')])],
           JObj [(''text'', JStr ''t2'')],
           JNull]
   \<and> skipped_choices example_platform
         [JObj [(''message'', JObj [(''content'', JStr ''t1'')])],
           JObj [(''message'', JObj [(''content'', JStr ''t1'')])],
           JObj [(''text'', JStr ''t2'')],
           JNull] = [JNull]
   \<and> fst (query example_platform example_client ''write a test'' []
          (example_world (\<lambda>i. Inr (ok_response (JObj [(''choices'',
      JArr [JObj [(''message'', JObj [(''content'', JStr ''t1'')])],
           JObj [(''message'', JObj [(''content'', JStr ''t1'')])],
           JObj [(''text'', JStr ''t2'')],
           JNull])])))))
     = Inr [''t1'', ''t2'']
   \<and> warnings (snd (query example_platform example_client ''write a test'' []
          (example_world (\<lambda>i. Inr (ok_response (JObj [(''choices'',
      JArr [JObj [(''message'', JObj [(''content'', JStr ''t1'')])],
           JObj [(''message'', JObj [(''content'', JStr ''t1'')])],
           JObj [(''text'', JStr ''t2'')],
           JNull])]))))))
     = [''Warning: skipped 1 LLM choice(s) with no text content. Example: null'']"
proof -
  let ?cs = "[JObj [(''message'', JObj [(''content'', JStr ''t1'')])],
           JObj [(''message'', JObj [(''content'', JStr ''t1'')])],
           JObj [(''text'', JStr ''t2'')],
           JNull]"
  let ?res = "ok_response (JObj [(''choices'', JArr ?cs)])"
  let ?w = "example_world (\<lambda>i. Inr ?res)"
  let ?q = "query example_platform example_client ''write a test'' [] ?w"
  have h1: "fst (send_request example_platform example_client ''write a test'' [] ?w) = Inr ?res"
    by (simp add: send_request_def example_platform_def example_client_def
        example_world_def numeral_3_eq_3 rateLimiter_next_def axios_post_def Let_def)
  have h2: "status ?res = 200"
    by (simp add: ok_response_def)
  have h3: "\<not> truthy (field (data ?res) ''error'')"
    by (simp add: ok_response_def own_prop_def)
  have h4: "field (data ?res) ''choices'' = JArr ?cs"
    by (simp add: ok_response_def own_prop_def)
  have ex: "List.map_filter (extracted example_platform) ?cs = [''t1'', ''t1'', ''t2'']"
    by (simp add: map_filter_simps extracted_def extractChoiceText_def
        selected_content_def opt_get_def coalesce_def own_prop_def)
  have sk: "skipped_choices example_platform ?cs = [JNull]"
    by (simp add: skipped_choices_def extracted_def extractChoiceText_def
        selected_content_def opt_get_def coalesce_def own_prop_def)
  note acc = skip_accounting [OF h1 h2 h3 h4]
  have q: "?q = collect_completions example_platform ?cs
      (snd (send_request example_platform example_client ''write a test'' [] ?w))"
    using h2 h3 h4 field_truthy [of "data ?res" "''choices''"]
    unfolding query_after_send [OF send_request_result [OF h1]] check_response_eq
    by simp
  have r: "fst ?q = Inr [''t1'', ''t2'']"
    unfolding q collect_completions_eq ex by (simp add: set_add_def)
  from acc sk have "warnings (snd ?q) =
      warnings ?w @
      [''Warning: skipped '' @ show_nat (Suc (length ([] :: jsval list)))
         @ '' LLM choice(s) with no text content. Example: ''
         @ (case JSON_stringify example_platform JNull of
              None \<Rightarrow> ''undefined''
            | Some snap \<Rightarrow> take 500 snap)]"
    by blast
  then have v: "warnings (snd ?q) =
      [''Warning: skipped 1 LLM choice(s) with no text content. Example: null'']"
    by (simp add: example_platform_def example_world_def show_nat.simps digit_char_def)
  from h1 h2 h3 h4 sk r v show ?thesis by blast
qed

text \<open>
  C5. \<open>query\<close> composes retry around the rate limiter: with a budget of at least 1,
  it makes between 1 and \<open>nrAttempts\<close> attempts, and each attempt is one admission by
  the rate limiter followed by one post. With a budget of 3 and a call that fails
  twice and then succeeds there are exactly three admissions, each before its post,
  and the third result is returned. When every attempt of the budget fails, \<open>query\<close>
  fails with the failure of the last attempt.
\<close>

theorem retry_wraps_rate_limiter:
  assumes "JSON_parse P (authHeaders c) = Inr auth"
    and "1 \<le> nrAttempts c"
  shows "(\<exists>k. 1 \<le> k \<and> k \<le> nrAttempts c
           \<and> events (snd (query P c prompt opts w))
               = events w @ attempts k (the_request c prompt opts auth))
   \<and> (nrAttempts c = 3
        \<and> server wb (nposts wb) (the_request c prompt opts auth) = Inl ea
        \<and> server wb (nposts wb + 1) (the_request c prompt opts auth) = Inl eb
        \<and> server wb (nposts wb + 2) (the_request c prompt opts auth) = Inr res
      \<longrightarrow> send_request P c prompt opts wb =
            (Inr res,
             wb\<lparr>events := events wb @
                [Admitted, Posted (the_request c prompt opts auth),
                 Admitted, Posted (the_request c prompt opts auth),
                 Admitted, Posted (the_request c prompt opts auth)]\<rparr>))
   \<and> ((\<forall>i<nrAttempts c. isl (server wc (nposts wc + i) (the_request c prompt opts auth)))
      \<longrightarrow> (\<exists>e. server wc (nposts wc + (nrAttempts c - 1)) (the_request c prompt opts auth) = Inl e
               \<and> query P c prompt opts wc =
                   (Inl e, wc\<lparr>events := events wc @
                      attempts (nrAttempts c) (the_request c prompt opts auth)\<rparr>)))"
proof (intro conjI impI)
  let ?r = "the_request c prompt opts auth"
  let ?n = "nrAttempts c"
  have m: "max 1 ?n = ?n" using assms(2) by simp
  from send_request_attempts [OF assms(1), of prompt opts w]
  obtain k where k: "1 \<le> k" "k \<le> max 1 ?n"
    and s: "send_request P c prompt opts w
         = (server w (nposts w + (k - 1)) ?r, w\<lparr>events := events w @ attempts k ?r\<rparr>)"
    by blast
  have "events (snd (query P c prompt opts w)) = events w @ attempts k ?r"
    by (simp add: query_events s)
  with k m show "\<exists>k. 1 \<le> k \<and> k \<le> ?n
      \<and> events (snd (query P c prompt opts w)) = events w @ attempts k ?r"
    by auto
next
  let ?r = "the_request c prompt opts auth"
  let ?n = "nrAttempts c"
  assume a: "nrAttempts c = 3
        \<and> server wb (nposts wb) ?r = Inl ea
        \<and> server wb (nposts wb + 1) ?r = Inl eb
        \<and> server wb (nposts wb + 2) ?r = Inr res"
  have m: "max 1 ?n = 3" using a by simp
  from send_request_attempts [OF assms(1), of prompt opts wb]
  obtain k where k: "1 \<le> k" "k \<le> max 1 ?n"
    and s: "send_request P c prompt opts wb
         = (server wb (nposts wb + (k - 1)) ?r, wb\<lparr>events := events wb @ attempts k ?r\<rparr>)"
    and l: "k < max 1 ?n \<longrightarrow> \<not> isl (server wb (nposts wb + (k - 1)) ?r)"
    by blast
  have "k \<noteq> 1"
  proof
    assume "k = 1"
    then show False using l m a by simp
  qed
  moreover have "k \<noteq> 2"
  proof
    assume "k = 2"
    then show False using l m a by simp
  qed
  ultimately have k3: "k = 3" using k m by arith
  have "server wb (nposts wb + (k - 1)) ?r = Inr res" using a k3 by simp
  moreover have "attempts k ?r = [Admitted, Posted ?r, Admitted, Posted ?r, Admitted, Posted ?r]"
    using k3 by (simp add: attempts_def numeral_3_eq_3)
  ultimately show "send_request P c prompt opts wb =
      (Inr res, wb\<lparr>events := events wb @
         [Admitted, Posted ?r, Admitted, Posted ?r, Admitted, Posted ?r]\<rparr>)"
    using s by simp
next
  let ?r = "the_request c prompt opts auth"
  let ?n = "nrAttempts c"
  assume a: "\<forall>i<?n. isl (server wc (nposts wc + i) ?r)"
  have m: "max 1 ?n = ?n" using assms(2) by simp
  from send_request_attempts [OF assms(1), of prompt opts wc]
  obtain k where k: "1 \<le> k" "k \<le> max 1 ?n"
    and s: "send_request P c prompt opts wc
         = (server wc (nposts wc + (k - 1)) ?r, wc\<lparr>events := events wc @ attempts k ?r\<rparr>)"
    and l: "k < max 1 ?n \<longrightarrow> \<not> isl (server wc (nposts wc + (k - 1)) ?r)"
    by blast
  have "\<not> k < ?n"
  proof
    assume kn: "k < ?n"
    then have "k - 1 < ?n" by simp
    then have "isl (server wc (nposts wc + (k - 1)) ?r)" using a by blast
    then show False using l kn m by simp
  qed
  then have kn: "k = ?n" using k m by simp
  have "?n - 1 < ?n" using assms(2) by simp
  then have "isl (server wc (nposts wc + (?n - 1)) ?r)" using a by blast
  then obtain e where e: "server wc (nposts wc + (?n - 1)) ?r = Inl e"
    by (cases "server wc (nposts wc + (?n - 1)) ?r") simp_all
  then have "send_request P c prompt opts wc =
      (Inl e, wc\<lparr>events := events wc @ attempts ?n ?r\<rparr>)"
    using s kn by simp
  then have "query P c prompt opts wc = (Inl e, wc\<lparr>events := events wc @ attempts ?n ?r\<rparr>)"
    by (rule query_send_failure)
  with e show "\<exists>e. server wc (nposts wc + (?n - 1)) ?r = Inl e
      \<and> query P c prompt opts wc = (Inl e, wc\<lparr>events := events wc @ attempts ?n ?r\<rparr>)"
    by blast
qed

theorem retry_wraps_rate_limiter_witness:
  "JSON_parse example_platform (authHeaders example_client) = Inr (JObj [])
   \<and> nrAttempts example_client = 3
   \<and> server (example_world (\<lambda>i. if i < 2 then Inl (Exn TransportError ''down'')
                                   else Inr (ok_response JNull)))
        (nposts (example_world (\<lambda>i. if i < 2 then Inl (Exn TransportError ''down'')
                                   else Inr (ok_response JNull))) + 1)
        (the_request example_client ''p'' [] (JObj []))
       = Inl (Exn TransportError ''down'')
   \<and> send_request example_platform example_client ''p'' []
        (example_world (\<lambda>i. if i < 2 then Inl (Exn TransportError ''down'')
                               else Inr (ok_response JNull)))
       = (Inr (ok_response JNull),
          (example_world (\<lambda>i. if i < 2 then Inl (Exn TransportError ''down'')
                                 else Inr (ok_response JNull)))
            \<lparr>events :=
               [Admitted, Posted (the_request example_client ''p'' [] (JObj [])),
                Admitted, Posted (the_request example_client ''p'' [] (JObj [])),
                Admitted, Posted (the_request example_client ''p'' [] (JObj []))]\<rparr>)
   \<and> isl (server (example_world (\<lambda>i. Inl (Exn TransportError (if i = 2 then ''last'' else ''down''))))
          2 (the_request example_client ''p'' [] (JObj [])))
   \<and> query example_platform example_client ''p'' []
        (example_world (\<lambda>i. Inl (Exn TransportError (if i = 2 then ''last'' else ''down''))))
       = (Inl (Exn TransportError ''last''),
          (example_world (\<lambda>i. Inl (Exn TransportError (if i = 2 then ''last'' else ''down''))))
            \<lparr>events := attempts 3 (the_request example_client ''p'' [] (JObj []))\<rparr>)"
proof -
  let ?r = "the_request example_client ''p'' [] (JObj [])"
  let ?w = "example_world (\<lambda>i. Inr (ok_response JNull))"
  let ?w2 = "example_world (\<lambda>i. if i < 2 then Inl (Exn TransportError ''down'')
                                   else Inr (ok_response JNull))"
  let ?w3 = "example_world (\<lambda>i. Inl (Exn TransportError (if i = 2 then ''last'' else ''down'')))"
  have p: "JSON_parse example_platform (authHeaders example_client) = Inr (JObj [])"
    by (simp add: example_platform_def example_client_def)
  have n: "nrAttempts example_client = 3"
    by (simp add: example_client_def)
  have b: "1 \<le> nrAttempts example_client"
    by (simp add: n)
  note inst = retry_wraps_rate_limiter [OF p b, where prompt = "''p''" and opts = "[]"
      and w = ?w and wb = ?w2 and wc = ?w3
      and ea = "Exn TransportError ''down''" and eb = "Exn TransportError ''down''"
      and res = "ok_response JNull"]
  have f1: "server ?w2 (nposts ?w2) ?r = Inl (Exn TransportError ''down'')"
    by (simp add: example_world_def nposts_def)
  have f2: "server ?w2 (nposts ?w2 + 1) ?r = Inl (Exn TransportError ''down'')"
    by (simp add: example_world_def nposts_def)
  have f3: "server ?w2 (nposts ?w2 + 2) ?r = Inr (ok_response JNull)"
    by (simp add: example_world_def nposts_def)
  have s2: "send_request example_platform example_client ''p'' [] ?w2 =
      (Inr (ok_response JNull),
       ?w2\<lparr>events := events ?w2 @
          [Admitted, Posted ?r, Admitted, Posted ?r, Admitted, Posted ?r]\<rparr>)"
    using inst n f1 f2 f3 by blast
  have e2: "events ?w2 = []"
    by (simp add: example_world_def)
  have g: "\<forall>i<nrAttempts example_client. isl (server ?w3 (nposts ?w3 + i) ?r)"
    by (simp add: example_world_def)
  have g2: "isl (server ?w3 2 ?r)"
    by (simp add: example_world_def)
  from inst g obtain e where
    e: "server ?w3 (nposts ?w3 + (nrAttempts example_client - 1)) ?r = Inl e"
    and q: "query example_platform example_client ''p'' [] ?w3 =
       (Inl e, ?w3\<lparr>events := events ?w3 @ attempts (nrAttempts example_client) ?r\<rparr>)"
    by blast
  have "e = Exn TransportError ''last''"
    using e by (simp add: n example_world_def nposts_def)
  then have q3: "query example_platform example_client ''p'' [] ?w3 =
       (Inl (Exn TransportError ''last''), ?w3\<lparr>events := attempts 3 ?r\<rparr>)"
    using q by (simp add: n example_world_def)
  from p n f2 s2 [unfolded e2 append_Nil] g2 q3 show ?thesis by blast
qed

text \<open>
  C2. For every prompt and temperature, \<open>completions\<close> calls \<open>query\<close> with the
  request options \<open>{temperature}\<close>. If \<open>query\<close> fails, for whatever reason,
  \<open>completions\<close> returns the empty set and writes exactly one warning, which carries
  the message of the failure; if \<open>query\<close> succeeds, \<open>completions\<close> returns the same
  elements. \<open>completions\<close> never throws.
\<close>

theorem completions_lenient:
  "completions P c prompt temperature w =
     (case query P c prompt [(''temperature'', JNum temperature)] w of
        (Inl err, w') \<Rightarrow>
          (Inr [], w'\<lparr>warnings := warnings w @ [''Failed to get completions: '' @ message err]\<rparr>)
      | (Inr found, w') \<Rightarrow> (Inr found, w'))
   \<and> (\<exists>result. fst (completions P c prompt temperature w) = Inr result)"
proof (cases "query P c prompt [(''temperature'', JNum temperature)] w")
  case (Pair r w')
  show ?thesis
  proof (cases r)
    case (Inl err)
    then have "warnings w' = warnings w"
      using Pair query_failure_warnings by simp
    then show ?thesis using Pair Inl by (simp add: completions_def console_warn_def)
  next
    case (Inr found)
    then have "distinct found" using Pair query_distinct by simp
    then have "fold (\<lambda>completion result. set_add result completion) found [] = found"
      using fold_set_add_distinct [of found "[]"] by simp
    then show ?thesis using Pair Inr by (simp add: completions_def)
  qed
qed

theorem completions_lenient_witness:
  "completions example_platform (example_client\<lparr>authHeaders := ''oops''\<rparr>) ''p'' 1
       (example_world (\<lambda>i. Inr (ok_response JNull)))
     = (Inr [], (example_world (\<lambda>i. Inr (ok_response JNull)))
                  \<lparr>warnings := [''Failed to get completions: Unexpected token'']\<rparr>)
   \<and> query example_platform example_client ''p'' [(''temperature'', JNum 1)]
       (example_world (\<lambda>i. Inr (ok_response (JObj [(''choices'',
           JArr [JObj [(''text'', JStr ''t2'')], JObj [(''text'', JStr ''t2'')]])]))))
     = (Inr [''t2''],
        (example_world (\<lambda>i. Inr (ok_response (JObj [(''choices'',
           JArr [JObj [(''text'', JStr ''t2'')], JObj [(''text'', JStr ''t2'')]])]))))
          \<lparr>events := attempts 1 (the_request example_client ''p''
                        [(''temperature'', JNum 1)] (JObj []))\<rparr>)
   \<and> completions example_platform example_client ''p'' 1
       (example_world (\<lambda>i. Inr (ok_response (JObj [(''choices'',
           JArr [JObj [(''text'', JStr ''t2'')], JObj [(''text'', JStr ''t2'')]])]))))
     = (Inr [''t2''],
        (example_world (\<lambda>i. Inr (ok_response (JObj [(''choices'',
           JArr [JObj [(''text'', JStr ''t2'')], JObj [(''text'', JStr ''t2'')]])]))))
          \<lparr>events := attempts 1 (the_request example_client ''p''
                        [(''temperature'', JNum 1)] (JObj []))\<rparr>)"
proof -
  let ?bad = "example_client\<lparr>authHeaders := ''oops''\<rparr>"
  let ?w = "example_world (\<lambda>i. Inr (ok_response JNull))"
  let ?cs = "[JObj [(''text'', JStr ''t2'')], JObj [(''text'', JStr ''t2'')]]"
  let ?res = "ok_response (JObj [(''choices'', JArr ?cs)])"
  let ?v = "example_world (\<lambda>i. Inr ?res)"
  let ?opts = "[(''temperature'', JNum 1)]"
  have "send_request example_platform ?bad ''p'' ?opts ?w
      = (Inl (Exn SyntaxError ''Unexpected token''), ?w)"
    by (simp add: send_request_def example_platform_def example_client_def)
  then have q1: "query example_platform ?bad ''p'' ?opts ?w
      = (Inl (Exn SyntaxError ''Unexpected token''), ?w)"
    by (rule query_send_failure)
  have a: "completions example_platform ?bad ''p'' 1 ?w
      = (Inr [], ?w\<lparr>warnings := [''Failed to get completions: Unexpected token'']\<rparr>)"
    using completions_lenient [of example_platform ?bad "''p''" 1 ?w]
    unfolding q1 by (simp add: example_world_def)
  have p: "JSON_parse example_platform (authHeaders example_client) = Inr (JObj [])"
    by (simp add: example_platform_def example_client_def)
  have s: "send_request example_platform example_client ''p'' ?opts ?v
      = (Inr ?res, ?v\<lparr>events := attempts 1 (the_request example_client ''p'' ?opts (JObj []))\<rparr>)"
    unfolding send_request_retry [OF p]
    by (simp add: example_client_def numeral_3_eq_3 attempt_once nposts_def
        example_world_def attempts_def)
  have ex: "List.map_filter (extracted example_platform) ?cs = [''t2'', ''t2'']"
    by (simp add: map_filter_simps extracted_def extractChoiceText_def
        selected_content_def opt_get_def coalesce_def own_prop_def)
  have sk: "skipped_choices example_platform ?cs = []"
    by (simp add: skipped_choices_def extracted_def extractChoiceText_def
        selected_content_def opt_get_def coalesce_def own_prop_def)
  have q2: "query example_platform example_client ''p'' ?opts ?v
      = (Inr [''t2''],
         ?v\<lparr>events := attempts 1 (the_request example_client ''p'' ?opts (JObj []))\<rparr>)"
  proof -
    have "query example_platform example_client ''p'' ?opts ?v
        = collect_completions example_platform ?cs
            (?v\<lparr>events := attempts 1 (the_request example_client ''p'' ?opts (JObj []))\<rparr>)"
      unfolding query_after_send [OF s] check_response_eq
      by (simp add: ok_response_def own_prop_def)
    then show ?thesis
      unfolding collect_completions_eq ex sk by (simp add: set_add_def)
  qed
  have b: "completions example_platform example_client ''p'' 1 ?v
      = (Inr [''t2''],
         ?v\<lparr>events := attempts 1 (the_request example_client ''p'' ?opts (JObj []))\<rparr>)"
    using completions_lenient [of example_platform example_client "''p''" 1 ?v]
    unfolding q2 by simp
  from a q2 b show ?thesis by blast
qed

end
